theory Spec2Isabelle
  imports Complex_Main "HOL-Library.Log_Nat"
begin

section \<open>JavaScript values used by the route helpers\<close>

text \<open>
  Times are milliseconds since the epoch, the value of \<open>Date.getTime()\<close>. A \<open>Date\<close>
  built from a number that is not a number is the invalid date.
\<close>

datatype date = Date int | InvalidDate

text \<open>
  Both helper tables of \<open>routes.ts\<close> are object literals, so they inherit from
  \<open>Object.prototype\<close>. A property read \<open>obj[key]\<close> yields the own property when
  there is one, otherwise the member of \<open>Object.prototype\<close> of that name (a function,
  or the prototype object itself for \<open>__proto__\<close>), otherwise \<open>undefined\<close>.
\<close>

definition objectPrototypeKeys :: "string list" where
  "objectPrototypeKeys =
     [''constructor'', ''hasOwnProperty'', ''isPrototypeOf'', ''propertyIsEnumerable'',
      ''toLocaleString'', ''toString'', ''valueOf'', ''__proto__'',
      ''__defineGetter__'', ''__defineSetter__'', ''__lookupGetter__'', ''__lookupSetter__'']"

datatype 'a lookup = Own 'a | Inherited string | Undefined

definition getProp :: "(string \<times> 'a) list \<Rightarrow> string \<Rightarrow> 'a lookup" where
  "getProp obj k =
     (case map_of obj k of
        Some v \<Rightarrow> Own v
      | None \<Rightarrow> if k \<in> set objectPrototypeKeys then Inherited k else Undefined)"

text \<open>
  What \<open>getAutoPriority\<close> can hand back at run time: a string, or an inherited member of
  \<open>Object.prototype\<close> (named by its key), which is truthy and is not a string.
\<close>

datatype jsval = JString string | JInherited string

text \<open>
  A value used as a property key is converted to a string. A built-in function prints as
  \<open>function name() { [native code] }\<close>, the prototype object as \<open>[object Object]\<close>.
\<close>

definition toPropertyKey :: "jsval \<Rightarrow> string" where
  "toPropertyKey v =
     (case v of
        JString s \<Rightarrow> s
      | JInherited k \<Rightarrow>
          if k = ''__proto__'' then ''[object Object]''
          else ''function '' @ (if k = ''constructor'' then ''Object'' else k)
               @ ''() { [native code] }'')"

section \<open>The helpers of routes.ts\<close>

definition hoursTable :: "(string \<times> int) list" where
  "hoursTable = [(''critical'', 24), (''high'', 48), (''medium'', 72), (''low'', 120)]"

text \<open>
  \<open>calculateSlaDeadline(priority)\<close>; \<open>now\<close> is the reading of the server clock taken by
  its \<open>new Date()\<close>. An inherited member is truthy, so \<open>|| 72\<close> keeps it, and its
  product with a number is not a number.
\<close>

definition calculateSlaDeadline :: "int \<Rightarrow> jsval \<Rightarrow> date" where
  "calculateSlaDeadline now priority =
     (case getProp hoursTable (toPropertyKey priority) of
        Own h \<Rightarrow> Date (now + (if h \<noteq> 0 then h else 72) * 60 * 60 * 1000)
      | Inherited k \<Rightarrow> InvalidDate
      | Undefined \<Rightarrow> Date (now + 72 * 60 * 60 * 1000))"

definition priorityMap :: "(string \<times> string) list" where
  "priorityMap = [(''urgent'', ''critical''), (''academic'', ''high''),
                  (''infrastructure'', ''medium''), (''administrative'', ''low'')]"

definition getAutoPriority :: "string \<Rightarrow> jsval" where
  "getAutoPriority category =
     (case getProp priorityMap category of
        Own p \<Rightarrow> if p \<noteq> [] then JString p else JString ''medium''
      | Inherited k \<Rightarrow> JInherited k
      | Undefined \<Rightarrow> JString ''medium'')"

text \<open>The enumerations of schema.ts.\<close>

definition grievanceCategoryEnum :: "string list" where
  "grievanceCategoryEnum = [''academic'', ''infrastructure'', ''administrative'', ''urgent'']"

definition grievancePriorityEnum :: "string list" where
  "grievancePriorityEnum = [''low'', ''medium'', ''high'', ''critical'']"

definition grievanceStatusEnum :: "string list" where
  "grievanceStatusEnum =
     [''submitted'', ''under_review'', ''assigned'', ''in_progress'', ''resolved'', ''closed'']"

text \<open>
  \<open>generateTrackingId()\<close>. \<open>nanoid(4)\<close> draws from the alphabet
  \<open>A-Za-z0-9_-\<close>, so \<open>toUpperCase\<close> only has to move the ASCII lower-case letters.
  The two draws are the parameters \<open>n1\<close> and \<open>n2\<close>.
\<close>

definition toUpperCaseChar :: "char \<Rightarrow> char" where
  "toUpperCaseChar c =
     (case map_of (zip ''abcdefghijklmnopqrstuvwxyz'' ''ABCDEFGHIJKLMNOPQRSTUVWXYZ'') c of
        Some u \<Rightarrow> u
      | None \<Rightarrow> c)"

definition toUpperCase :: "string \<Rightarrow> string" where
  "toUpperCase s = map toUpperCaseChar s"

definition generateTrackingId :: "string \<Rightarrow> string \<Rightarrow> string" where
  "generateTrackingId n1 n2 = ''GRV-'' @ toUpperCase n1 @ ''-'' @ toUpperCase n2"

section \<open>The tables of schema.ts\<close>

text \<open>
  A nullable column is an \<open>option\<close>. Only the columns of \<open>users\<close> that the routes read
  are kept.
\<close>

record user =
  u_id :: string
  role :: string

record grievance =
  g_id :: string
  trackingId :: string
  userId :: "string option"
  isAnonymous :: bool
  title :: string
  description :: string
  category :: string
  priority :: string
  status :: string
  isConfidential :: bool
  slaDeadline :: "int option"
  createdAt :: "int option"
  updatedAt :: "int option"
  resolvedAt :: "int option"

record file_row =
  f_id :: string
  f_grievanceId :: string
  fileName :: string
  fileType :: string
  fileSize :: int
  filePath :: string
  uploadedBy :: "string option"
  f_createdAt :: "int option"

record comment =
  c_id :: string
  c_grievanceId :: string
  c_userId :: string
  c_content :: string
  isInternal :: bool
  c_createdAt :: "int option"

record notification =
  n_id :: string
  n_userId :: string
  n_grievanceId :: "string option"
  n_title :: string
  n_message :: string
  isRead :: bool
  n_createdAt :: "int option"

record db =
  users :: "user list"
  grievances :: "grievance list"
  files :: "file_row list"
  comments :: "comment list"
  notifications :: "notification list"

text \<open>
  What a request takes from outside the program: the server clock read by \<open>new Date()\<close>
  in the route and in the storage method, the database's own \<open>now()\<close> and
  \<open>gen_random_uuid()\<close> at the k-th insert of the request (the column defaults), and the
  k-th draw of \<open>nanoid(4)\<close>.
\<close>

record env =
  routeNow :: int
  storageNow :: int
  dbNow :: "nat \<Rightarrow> int"
  uuid :: "nat \<Rightarrow> string"
  nanoid :: "nat \<Rightarrow> string"

text \<open>
  What can be thrown inside a route: an error of the database or its driver, and the
  \<open>TypeError\<close> of reading a property of \<open>undefined\<close>. A route answers with
  \<open>res.json(value)\<close> or with \<open>res.status(code).json({ message })\<close>.
\<close>

datatype error = DbError | TypeError

datatype 'a response = Json 'a | Status nat string

section \<open>DatabaseStorage\<close>

text \<open>
  The storage class that \<open>createStorage()\<close> returns when a database is configured;
  the routes are modelled on it. The in-memory storage used otherwise keeps whatever it
  is given and enforces none of the constraints below.
  The database fills \<open>id\<close>, \<open>createdAt\<close> and \<open>updatedAt\<close> of a new row from the
  column defaults. A statement that breaks a constraint of the schema (enumeration,
  unique, primary key, foreign key) throws and changes nothing. A value that is not a
  string cannot be stored in an enumeration column, and an invalid date cannot be stored
  in a timestamp column.
\<close>

definition getUser :: "db \<Rightarrow> string \<Rightarrow> user option" where
  "getUser d i = find (\<lambda>u. u_id u = i) (users d)"

definition getGrievance :: "db \<Rightarrow> string \<Rightarrow> grievance option" where
  "getGrievance d i = find (\<lambda>g. g_id g = i) (grievances d)"

definition userExists :: "db \<Rightarrow> string \<Rightarrow> bool" where
  "userExists d i = (i \<in> set (map u_id (users d)))"

definition grievanceExists :: "db \<Rightarrow> string \<Rightarrow> bool" where
  "grievanceExists d i = (i \<in> set (map g_id (grievances d)))"

record insertGrievance =
  i_userId :: "string option"
  i_trackingId :: string
  i_title :: string
  i_description :: string
  i_category :: string
  i_priority :: jsval
  i_isAnonymous :: bool
  i_isConfidential :: bool
  i_slaDeadline :: date
  i_status :: string

definition createGrievance ::
  "db \<Rightarrow> env \<Rightarrow> nat \<Rightarrow> insertGrievance \<Rightarrow> error + grievance \<times> db" where
  "createGrievance d e k ins =
     (case (i_priority ins, i_slaDeadline ins) of
        (JString p, Date t) \<Rightarrow>
          if i_category ins \<in> set grievanceCategoryEnum
           \<and> p \<in> set grievancePriorityEnum
           \<and> i_status ins \<in> set grievanceStatusEnum
           \<and> i_trackingId ins \<notin> set (map trackingId (grievances d))
           \<and> uuid e k \<notin> set (map g_id (grievances d))
           \<and> (case i_userId ins of None \<Rightarrow> True | Some u \<Rightarrow> userExists d u)
          then
            let g = \<lparr> g_id = uuid e k, trackingId = i_trackingId ins, userId = i_userId ins,
                      isAnonymous = i_isAnonymous ins, title = i_title ins,
                      description = i_description ins, category = i_category ins,
                      priority = p, status = i_status ins,
                      isConfidential = i_isConfidential ins, slaDeadline = Some t,
                      createdAt = Some (dbNow e k), updatedAt = Some (dbNow e k),
                      resolvedAt = None \<rparr>
            in Inr (g, d\<lparr>grievances := grievances d @ [g]\<rparr>)
          else Inl DbError
      | _ \<Rightarrow> Inl DbError)"

text \<open>
  \<open>updateGrievanceStatus(id, status, resolvedAt?)\<close>: \<open>resolvedAt\<close> is written only
  when the argument is given; the result is the list of rows that \<open>returning()\<close> yields.
\<close>

definition updateGrievanceStatus ::
  "db \<Rightarrow> env \<Rightarrow> string \<Rightarrow> string \<Rightarrow> int option \<Rightarrow> error + grievance list \<times> db" where
  "updateGrievanceStatus d e i st resolved =
     (if st \<in> set grievanceStatusEnum then
        let upd = (\<lambda>g. case resolved of
                          None \<Rightarrow> g\<lparr>status := st, updatedAt := Some (storageNow e)\<rparr>
                        | Some r \<Rightarrow> g\<lparr>status := st, updatedAt := Some (storageNow e),
                                       resolvedAt := Some r\<rparr>);
            rows = map (\<lambda>g. if g_id g = i then upd g else g) (grievances d)
        in Inr (filter (\<lambda>g. g_id g = i) rows, d\<lparr>grievances := rows\<rparr>)
      else Inl DbError)"

definition updateGrievancePriority ::
  "db \<Rightarrow> env \<Rightarrow> string \<Rightarrow> string \<Rightarrow> date \<Rightarrow> error + grievance list \<times> db" where
  "updateGrievancePriority d e i p deadline =
     (case deadline of
        Date t \<Rightarrow>
          if p \<in> set grievancePriorityEnum then
            let upd = (\<lambda>g. g\<lparr>priority := p, slaDeadline := Some t,
                              updatedAt := Some (storageNow e)\<rparr>);
                rows = map (\<lambda>g. if g_id g = i then upd g else g) (grievances d)
            in Inr (filter (\<lambda>g. g_id g = i) rows, d\<lparr>grievances := rows\<rparr>)
          else Inl DbError
      | InvalidDate \<Rightarrow> Inl DbError)"

record insertFile =
  if_grievanceId :: string
  if_fileName :: string
  if_fileType :: string
  if_fileSize :: int
  if_filePath :: string
  if_uploadedBy :: "string option"

definition createFile :: "db \<Rightarrow> env \<Rightarrow> nat \<Rightarrow> insertFile \<Rightarrow> error + file_row \<times> db" where
  "createFile d e k ins =
     (if grievanceExists d (if_grievanceId ins)
       \<and> uuid e k \<notin> set (map f_id (files d))
       \<and> (case if_uploadedBy ins of None \<Rightarrow> True | Some u \<Rightarrow> userExists d u)
      then
        let f = \<lparr> f_id = uuid e k, f_grievanceId = if_grievanceId ins,
                  fileName = if_fileName ins, fileType = if_fileType ins,
                  fileSize = if_fileSize ins, filePath = if_filePath ins,
                  uploadedBy = if_uploadedBy ins, f_createdAt = Some (dbNow e k) \<rparr>
        in Inr (f, d\<lparr>files := files d @ [f]\<rparr>)
      else Inl DbError)"

record insertComment =
  ic_grievanceId :: string
  ic_userId :: string
  ic_content :: string
  ic_isInternal :: bool

definition createComment :: "db \<Rightarrow> env \<Rightarrow> nat \<Rightarrow> insertComment \<Rightarrow> error + comment \<times> db" where
  "createComment d e k ins =
     (if grievanceExists d (ic_grievanceId ins)
       \<and> userExists d (ic_userId ins)
       \<and> uuid e k \<notin> set (map c_id (comments d))
      then
        let c = \<lparr> c_id = uuid e k, c_grievanceId = ic_grievanceId ins,
                  c_userId = ic_userId ins, c_content = ic_content ins,
                  isInternal = ic_isInternal ins, c_createdAt = Some (dbNow e k) \<rparr>
        in Inr (c, d\<lparr>comments := comments d @ [c]\<rparr>)
      else Inl DbError)"

record insertNotification =
  in_userId :: string
  in_grievanceId :: "string option"
  in_title :: string
  in_message :: string
  in_isRead :: bool

definition createNotification ::
  "db \<Rightarrow> env \<Rightarrow> nat \<Rightarrow> insertNotification \<Rightarrow> error + notification \<times> db" where
  "createNotification d e k ins =
     (if userExists d (in_userId ins)
       \<and> (case in_grievanceId ins of None \<Rightarrow> True | Some g \<Rightarrow> grievanceExists d g)
       \<and> uuid e k \<notin> set (map n_id (notifications d))
      then
        let n = \<lparr> n_id = uuid e k, n_userId = in_userId ins,
                  n_grievanceId = in_grievanceId ins, n_title = in_title ins,
                  n_message = in_message ins, isRead = in_isRead ins,
                  n_createdAt = Some (dbNow e k) \<rparr>
        in Inr (n, d\<lparr>notifications := notifications d @ [n]\<rparr>)
      else Inl DbError)"

section \<open>The routes\<close>

text \<open>
  Each route runs inside \<open>try\<close>/\<open>catch\<close>: whatever is thrown becomes status 500 with
  the route's message, and what was written before the throw stays written. The
  authenticated caller is \<open>req.user.claims.sub\<close>. The fields read from the body are
  strings, as the functions they are passed to declare. An update that matched no row
  returns no grievance, and reading its \<open>userId\<close> throws.
\<close>

definition truthy :: "string option \<Rightarrow> bool" where
  "truthy v = (case v of None \<Rightarrow> False | Some s \<Rightarrow> s \<noteq> [])"

record submitBody =
  b_title :: string
  b_description :: string
  b_category :: string
  b_isAnonymous :: string
  b_isConfidential :: string

record upload =
  originalname :: string
  mimetype :: string
  size_bytes :: int
  path :: string

fun createFiles ::
  "db \<Rightarrow> env \<Rightarrow> nat \<Rightarrow> string \<Rightarrow> string option \<Rightarrow> upload list \<Rightarrow> error option \<times> db" where
  "createFiles d e k gid uploader [] = (None, d)"
| "createFiles d e k gid uploader (f # fs) =
     (case createFile d e k \<lparr> if_grievanceId = gid, if_fileName = originalname f,
                               if_fileType = mimetype f, if_fileSize = size_bytes f,
                               if_filePath = path f, if_uploadedBy = uploader \<rparr> of
        Inl err \<Rightarrow> (Some err, d)
      | Inr (row, d1) \<Rightarrow> createFiles d1 e (Suc k) gid uploader fs)"

text \<open>\<open>POST /api/grievances\<close>\<close>

definition postGrievances ::
  "db \<Rightarrow> env \<Rightarrow> string \<Rightarrow> submitBody \<Rightarrow> upload list \<Rightarrow> grievance response \<times> db" where
  "postGrievances d e uid body uploads =
     (let priority = getAutoPriority (b_category body);
          deadline = calculateSlaDeadline (routeNow e) priority;
          tid = generateTrackingId (nanoid e 0) (nanoid e 1);
          owner = (if b_isAnonymous body = ''true'' then None else Some uid)
      in case createGrievance d e 0
                \<lparr> i_userId = owner, i_trackingId = tid, i_title = b_title body,
                  i_description = b_description body, i_category = b_category body,
                  i_priority = priority, i_isAnonymous = (b_isAnonymous body = ''true''),
                  i_isConfidential = (b_isConfidential body = ''true''),
                  i_slaDeadline = deadline, i_status = ''submitted'' \<rparr> of
           Inl err \<Rightarrow> (Status 500 ''Failed to create grievance'', d)
         | Inr (g, d1) \<Rightarrow>
             (case createFiles d1 e 1 (g_id g) owner uploads of
                (Some err, d2) \<Rightarrow> (Status 500 ''Failed to create grievance'', d2)
              | (None, d2) \<Rightarrow>
                  if \<not> isAnonymous g \<and> truthy (userId g) then
                    (case createNotification d2 e (Suc (length uploads))
                            \<lparr> in_userId = the (userId g), in_grievanceId = Some (g_id g),
                              in_title = ''Grievance Submitted'',
                              in_message = ''Your grievance '' @ [CHR 0x22] @ b_title body
                                 @ [CHR 0x22] @ '' has been submitted successfully.'',
                              in_isRead = False \<rparr> of
                       Inl err \<Rightarrow> (Status 500 ''Failed to create grievance'', d2)
                     | Inr (n, d3) \<Rightarrow> (Json g, d3))
                  else (Json g, d2)))"

text \<open>\<open>PATCH /api/grievances/:id/status\<close>\<close>

definition staffRoles :: "string list" where
  "staffRoles = [''administrator'', ''staff'', ''faculty'']"

definition patchGrievanceStatus ::
  "db \<Rightarrow> env \<Rightarrow> string \<Rightarrow> string \<Rightarrow> string \<Rightarrow> grievance response \<times> db" where
  "patchGrievanceStatus d e uid i st =
     (case getUser d uid of
        None \<Rightarrow> (Status 403 ''Forbidden'', d)
      | Some u \<Rightarrow>
          if role u \<notin> set staffRoles then (Status 403 ''Forbidden'', d)
          else
            let resolved = (if st = ''resolved'' \<or> st = ''closed''
                            then Some (routeNow e) else None)
            in case updateGrievanceStatus d e i st resolved of
                 Inl err \<Rightarrow> (Status 500 ''Failed to update status'', d)
               | Inr ([], d1) \<Rightarrow> (Status 500 ''Failed to update status'', d1)
               | Inr (g # rest, d1) \<Rightarrow>
                   if truthy (userId g) then
                     (case createNotification d1 e 0
                             \<lparr> in_userId = the (userId g), in_grievanceId = Some i,
                               in_title = ''Status Updated'',
                               in_message = ''Your grievance status has been updated to ''
                                  @ st @ ''.'',
                               in_isRead = False \<rparr> of
                        Inl err \<Rightarrow> (Status 500 ''Failed to update status'', d1)
                      | Inr (n, d2) \<Rightarrow> (Json g, d2))
                   else (Json g, d1))"

text \<open>\<open>PATCH /api/grievances/:id/priority\<close>\<close>

definition patchGrievancePriority ::
  "db \<Rightarrow> env \<Rightarrow> string \<Rightarrow> string \<Rightarrow> string \<Rightarrow> grievance response \<times> db" where
  "patchGrievancePriority d e uid i p =
     (case getUser d uid of
        None \<Rightarrow> (Status 403 ''Forbidden'', d)
      | Some u \<Rightarrow>
          if role u \<noteq> ''administrator'' then (Status 403 ''Forbidden'', d)
          else
            let deadline = calculateSlaDeadline (routeNow e) (JString p)
            in case updateGrievancePriority d e i p deadline of
                 Inl err \<Rightarrow> (Status 500 ''Failed to update priority'', d)
               | Inr ([], d1) \<Rightarrow> (Status 500 ''Failed to update priority'', d1)
               | Inr (g # rest, d1) \<Rightarrow>
                   if truthy (userId g) then
                     (case createNotification d1 e 0
                             \<lparr> in_userId = the (userId g), in_grievanceId = Some i,
                               in_title = ''Priority Updated'',
                               in_message = ''Your grievance priority has been updated to ''
                                  @ p @ ''.'',
                               in_isRead = False \<rparr> of
                        Inl err \<Rightarrow> (Status 500 ''Failed to update priority'', d1)
                      | Inr (n, d2) \<Rightarrow> (Json g, d2))
                   else (Json g, d1))"

text \<open>
  \<open>POST /api/grievances/:id/comments\<close>. Only \<open>content\<close> is read from the body;
  \<open>b_other\<close> stands for every other field the client sent.
\<close>

record commentBody =
  b_content :: string
  b_other :: "(string \<times> string) list"

definition postGrievanceComments ::
  "db \<Rightarrow> env \<Rightarrow> string \<Rightarrow> string \<Rightarrow> commentBody \<Rightarrow> comment response \<times> db" where
  "postGrievanceComments d e uid i body =
     (case createComment d e 0 \<lparr> ic_grievanceId = i, ic_userId = uid,
                                  ic_content = b_content body, ic_isInternal = False \<rparr> of
        Inl err \<Rightarrow> (Status 500 ''Failed to create comment'', d)
      | Inr (c, d1) \<Rightarrow> (Json c, d1))"

section \<open>Dashboard statistics and analytics\<close>

text \<open>
  \<open>getDashboardStats(userId?, role?)\<close> and \<open>getAnalytics()\<close> of the
  database-backed storage. \<open>now\<close> is the reading of the clock taken by
  \<open>new Date()\<close> in \<open>getDashboardStats\<close>. The query is narrowed to one user's rows
  when a user id is given and the role is \<open>student\<close>.
\<close>

record stats =
  total :: nat
  pending :: nat
  resolved :: nat
  overdue :: nat

definition scopedGrievances :: "db \<Rightarrow> string option \<Rightarrow> string option \<Rightarrow> grievance list" where
  "scopedGrievances d uid rl =
     (if truthy uid \<and> rl = Some ''student''
      then filter (\<lambda>g. userId g = uid) (grievances d)
      else grievances d)"

definition getDashboardStats :: "db \<Rightarrow> int \<Rightarrow> string option \<Rightarrow> string option \<Rightarrow> stats" where
  "getDashboardStats d now uid rl =
     (let allGrievances = scopedGrievances d uid rl
      in \<lparr> total = length allGrievances,
           pending = length (filter (\<lambda>g. status g \<notin> set [''resolved'', ''closed''])
                               allGrievances),
           resolved = length (filter (\<lambda>g. status g = ''resolved'' \<or> status g = ''closed'')
                                allGrievances),
           overdue = length (filter (\<lambda>g. (case slaDeadline g of
                                               None \<Rightarrow> False
                                             | Some t \<Rightarrow> t < now)
                                          \<and> status g \<notin> set [''resolved'', ''closed''])
                               allGrievances) \<rparr>)"

text \<open>
  JavaScript numbers are IEEE 754 double-precision numbers. A double is taken as the
  rational it denotes, and an arithmetic operation returns the exact result rounded to
  the nearest double, a tie going to the even significand of 53 bits. The exponent
  range is not modelled: time values are integers below 8.64e15 in magnitude, and what
  the average computes from them neither overflows nor reaches the subnormal numbers.
\<close>

definition pow2 :: "int \<Rightarrow> rat" where
  "pow2 k = (if 0 \<le> k then 2 ^ nat k else 1 / 2 ^ nat (- k))"

definition floorLog2 :: "rat \<Rightarrow> int" where
  "floorLog2 x = (if 1 \<le> x then bitlen \<lfloor>x\<rfloor> - 1 else - bitlen (\<lceil>1 / x\<rceil> - 1))"

definition roundHalfEven :: "rat \<Rightarrow> int" where
  "roundHalfEven q =
     (let f = \<lfloor>q\<rfloor>; r = q - of_int f
      in if r < 1 / 2 then f
         else if 1 / 2 < r then f + 1
         else if even f then f else f + 1)"

definition roundDouble :: "rat \<Rightarrow> rat" where
  "roundDouble x =
     (if x = 0 then 0
      else let e = floorLog2 \<bar>x\<bar> - 52
           in sgn x * of_int (roundHalfEven (\<bar>x\<bar> / pow2 e)) * pow2 e)"

text \<open>
  The \<open>avgResolutionTime\<close> field of \<open>getAnalytics()\<close>. \<open>new Date(x).getTime()\<close> of a
  null column is 0. The subtraction, the division by the milliseconds of an hour, each
  addition of the \<open>reduce\<close> and the division by the length are operations on doubles.
  \<open>Math.round\<close> gives the nearest integer, a half going upwards.
\<close>

definition getTime :: "int option \<Rightarrow> int" where
  "getTime v = (case v of None \<Rightarrow> 0 | Some t \<Rightarrow> t)"

definition mathRound :: "rat \<Rightarrow> int" where
  "mathRound x = \<lfloor>x + 1 / 2\<rfloor>"

definition avgResolutionTime :: "grievance list \<Rightarrow> int" where
  "avgResolutionTime allGrievances =
     (let resolvedGrievances = filter (\<lambda>g. resolvedAt g \<noteq> None) allGrievances
      in if length resolvedGrievances > 0
         then mathRound
                (roundDouble
                   (foldl (\<lambda>sum g.
                             roundDouble
                               (sum + roundDouble
                                        (roundDouble (of_int (getTime (resolvedAt g))
                                                      - of_int (getTime (createdAt g)))
                                         / (1000 * 60 * 60))))
                          0 resolvedGrievances
                    / of_nat (length resolvedGrievances)))
         else 0)"

section \<open>The specification's vocabulary\<close>

text \<open>
  These follow the words of the specification, not the code: the scope of the dashboard
  (one user's grievances for a student, all of them otherwise), its pending, resolved
  and overdue predicates, a count by recursion, and the mean resolution time in hours
  (a missing creation timestamp counts as the epoch, as in the code).
\<close>

definition spec_inScope :: "string option \<Rightarrow> string option \<Rightarrow> grievance \<Rightarrow> bool" where
  "spec_inScope uid rl g =
     (case uid of
        None \<Rightarrow> True
      | Some u \<Rightarrow> if u \<noteq> [] \<and> rl = Some ''student'' then userId g = Some u else True)"

definition spec_pending :: "grievance \<Rightarrow> bool" where
  "spec_pending g = (status g \<noteq> ''resolved'' \<and> status g \<noteq> ''closed'')"

definition spec_resolved :: "grievance \<Rightarrow> bool" where
  "spec_resolved g = (status g = ''resolved'' \<or> status g = ''closed'')"

definition spec_overdue :: "int \<Rightarrow> grievance \<Rightarrow> bool" where
  "spec_overdue now g =
     (spec_pending g \<and> (case slaDeadline g of None \<Rightarrow> False | Some t \<Rightarrow> t < now))"

fun spec_count :: "('a \<Rightarrow> bool) \<Rightarrow> 'a list \<Rightarrow> nat" where
  "spec_count P [] = 0"
| "spec_count P (x # xs) = (if P x then Suc (spec_count P xs) else spec_count P xs)"

definition spec_resolutionHours :: "grievance \<Rightarrow> rat" where
  "spec_resolutionHours g = of_int (getTime (resolvedAt g) - getTime (createdAt g)) / 3600000"

definition spec_meanResolutionHours :: "grievance list \<Rightarrow> rat" where
  "spec_meanResolutionHours gs =
     (let rs = filter (\<lambda>g. resolvedAt g \<noteq> None) gs
      in if rs = [] then 0
         else sum_list (map spec_resolutionHours rs) / of_nat (length rs))"

text \<open>
  The mean as double-precision arithmetic computes it: each resolution time in hours is
  a rounded quotient, the hours are added from the left starting at 0 with every sum
  rounded, and the total is divided by the count and rounded. The unit roundoff bounds
  the relative error of one rounding. Rounding to the nearest integer with a half going
  upwards is written without the floor of a shifted number.
\<close>

definition spec_doubleHours :: "grievance \<Rightarrow> rat" where
  "spec_doubleHours g =
     roundDouble (roundDouble (of_int (getTime (resolvedAt g)) - of_int (getTime (createdAt g)))
                  / 3600000)"

fun spec_doubleSum :: "rat \<Rightarrow> rat list \<Rightarrow> rat" where
  "spec_doubleSum acc [] = acc"
| "spec_doubleSum acc (x # xs) = spec_doubleSum (roundDouble (acc + x)) xs"

definition spec_doubleMeanHours :: "grievance list \<Rightarrow> rat" where
  "spec_doubleMeanHours gs =
     (let rs = filter (\<lambda>g. resolvedAt g \<noteq> None) gs
      in if rs = [] then 0
         else roundDouble (spec_doubleSum 0 (map spec_doubleHours rs) / of_nat (length rs)))"

definition spec_unitRoundoff :: rat where
  "spec_unitRoundoff = 1 / 2 ^ 53"

definition spec_roundHalfUp :: "rat \<Rightarrow> int" where
  "spec_roundHalfUp x = (if x - of_int \<lfloor>x\<rfloor> < 1 / 2 then \<lfloor>x\<rfloor> else \<lfloor>x\<rfloor> + 1)"

text \<open>
  The documented category-to-priority mapping and offset table, and the kind of response
  the specification calls a validation error (status 400).
\<close>

definition spec_resolvePriority :: "string \<Rightarrow> string" where
  "spec_resolvePriority c =
     (if c = ''urgent'' then ''critical''
      else if c = ''academic'' then ''high''
      else if c = ''infrastructure'' then ''medium''
      else if c = ''administrative'' then ''low''
      else ''medium'')"

definition spec_offsetHours :: "string \<Rightarrow> int" where
  "spec_offsetHours p =
     (if p = ''critical'' then 24
      else if p = ''high'' then 48
      else if p = ''medium'' then 72
      else if p = ''low'' then 120
      else 72)"

definition spec_isValidationError :: "'a response \<Rightarrow> bool" where
  "spec_isValidationError r = (case r of Json v \<Rightarrow> False | Status code msg \<Rightarrow> code = 400)"

section \<open>Sample data\<close>

text \<open>
  Three users (a student, a staff member, an administrator), an environment whose
  database clock runs two milliseconds after the server clock, a submission body, the
  grievance that the first sample submission creates, a grievance with a given status
  and timestamps, and the database after a staff member resolves the submitted
  grievance once and twice.
\<close>

definition sampleUsers :: "user list" where
  "sampleUsers = [\<lparr>u_id = ''u1'', role = ''student''\<rparr>, \<lparr>u_id = ''s1'', role = ''staff''\<rparr>,
                  \<lparr>u_id = ''a1'', role = ''administrator''\<rparr>]"

definition sampleDb :: "grievance list \<Rightarrow> db" where
  "sampleDb gs = \<lparr> users = sampleUsers, grievances = gs, files = [], comments = [],
                  notifications = [] \<rparr>"

definition sampleEnv :: "int \<Rightarrow> string \<Rightarrow> env" where
  "sampleEnv t tag =
     \<lparr> routeNow = t, storageNow = t + 1, dbNow = (\<lambda>k. t + 2 + int k),
       uuid = (\<lambda>k. tag @ replicate k CHR ''i''),
       nanoid = (\<lambda>k. if k = 0 then ''ab1_'' else if k = 1 then ''x-yz'' else ''q7Rt'') \<rparr>"

definition sampleBody :: "string \<Rightarrow> submitBody" where
  "sampleBody c = \<lparr> b_title = ''Broken projector'', b_description = ''Room 12'',
                    b_category = c, b_isAnonymous = ''false'', b_isConfidential = ''false'' \<rparr>"

definition sampleSubmitted :: grievance where
  "sampleSubmitted =
     \<lparr> g_id = ''a'', trackingId = ''GRV-AB1_-X-YZ'', userId = Some ''u1'',
       isAnonymous = False, title = ''Broken projector'', description = ''Room 12'',
       category = ''urgent'', priority = ''critical'', status = ''submitted'',
       isConfidential = False, slaDeadline = Some 86401000, createdAt = Some 1002,
       updatedAt = Some 1002, resolvedAt = None \<rparr>"

definition sampleGrievance :: "string \<Rightarrow> string \<Rightarrow> int \<Rightarrow> int option \<Rightarrow> grievance" where
  "sampleGrievance i st created res =
     \<lparr> g_id = i, trackingId = ''GRV-'' @ i, userId = Some ''u1'', isAnonymous = False,
       title = ''Broken projector'', description = ''Room 12'', category = ''infrastructure'',
       priority = ''medium'', status = st, isConfidential = False,
       slaDeadline = Some (created + 72 * 3600000), createdAt = Some created,
       updatedAt = Some created, resolvedAt = res \<rparr>"

definition sampleResolvedOnce :: db where
  "sampleResolvedOnce =
     snd (patchGrievanceStatus (sampleDb [sampleSubmitted]) (sampleEnv 7000 ''c'') ''s1'' ''a''
            ''resolved'')"

definition sampleResolvedTwice :: db where
  "sampleResolvedTwice =
     snd (patchGrievanceStatus sampleResolvedOnce (sampleEnv 9000 ''d'') ''s1'' ''a''
            ''resolved'')"

section \<open>The priority resolver and the SLA calculator\<close>

lemma getAutoPriority_enumeration:
  "getAutoPriority ''urgent'' = JString ''critical''"
  "getAutoPriority ''academic'' = JString ''high''"
  "getAutoPriority ''infrastructure'' = JString ''medium''"
  "getAutoPriority ''administrative'' = JString ''low''"
  by (simp_all add: getAutoPriority_def getProp_def priorityMap_def)

lemma getAutoPriority_unrecognized:
  "c \<notin> set grievanceCategoryEnum \<Longrightarrow> c \<notin> set objectPrototypeKeys \<Longrightarrow>
     getAutoPriority c = JString ''medium''"
  by (simp add: getAutoPriority_def getProp_def priorityMap_def grievanceCategoryEnum_def)

lemma getAutoPriority_inherited:
  "c \<in> set objectPrototypeKeys \<Longrightarrow> getAutoPriority c = JInherited c"
  by (auto simp add: getAutoPriority_def getProp_def priorityMap_def objectPrototypeKeys_def)

text \<open>
  C6. The resolver is meant to return the documented priority for the four categories
  and \<open>medium\<close> for every other string. The category \<open>constructor\<close> is outside the
  enumeration, yet the lookup finds the member that the table inherits from
  \<open>Object.prototype\<close>; it is truthy, so the default is not taken and the result is that
  member, not \<open>medium\<close>.
\<close>

theorem getAutoPriority_constructor:
  "''constructor'' \<notin> set grievanceCategoryEnum
   \<and> getAutoPriority ''constructor'' = JInherited ''constructor''
   \<and> getAutoPriority ''constructor'' \<noteq> JString ''medium''"
  by (simp add: getAutoPriority_def getProp_def priorityMap_def objectPrototypeKeys_def
      grievanceCategoryEnum_def)

lemma calculateSlaDeadline_priorities:
  "calculateSlaDeadline t (JString ''critical'') = Date (t + 24 * 3600000)"
  "calculateSlaDeadline t (JString ''high'') = Date (t + 48 * 3600000)"
  "calculateSlaDeadline t (JString ''medium'') = Date (t + 72 * 3600000)"
  "calculateSlaDeadline t (JString ''low'') = Date (t + 120 * 3600000)"
  by (simp_all add: calculateSlaDeadline_def getProp_def hoursTable_def toPropertyKey_def)

lemma calculateSlaDeadline_unrecognized:
  "p \<notin> set grievancePriorityEnum \<Longrightarrow> p \<notin> set objectPrototypeKeys \<Longrightarrow>
     calculateSlaDeadline t (JString p) = Date (t + 72 * 3600000)"
  by (simp add: calculateSlaDeadline_def getProp_def hoursTable_def toPropertyKey_def
      grievancePriorityEnum_def)

lemma calculateSlaDeadline_of_inherited:
  "calculateSlaDeadline t (JInherited k) = Date (t + 72 * 3600000)"
  by (simp add: calculateSlaDeadline_def getProp_def hoursTable_def toPropertyKey_def
      objectPrototypeKeys_def)

text \<open>
  C7. The calculator is meant to add 24, 48, 72 or 120 hours for the four priorities
  and 72 hours for every unrecognized priority. For the unrecognized priority
  \<open>constructor\<close> the table lookup yields an inherited function, the product with the
  milliseconds of an hour is not a number, and the result is the invalid date instead of
  the reference time plus 72 hours.
\<close>

theorem calculateSlaDeadline_constructor:
  "''constructor'' \<notin> set grievancePriorityEnum
   \<and> calculateSlaDeadline 1700000000000 (JString ''constructor'') = InvalidDate
   \<and> calculateSlaDeadline 1700000000000 (JString ''constructor'')
       \<noteq> Date (1700000000000 + 72 * 3600000)"
  by (simp add: calculateSlaDeadline_def getProp_def hoursTable_def toPropertyKey_def
      objectPrototypeKeys_def grievancePriorityEnum_def)

section \<open>Submission\<close>

lemma createFiles_grievances:
  "createFiles d e k gid up fs = (r, d') \<Longrightarrow> grievances d' = grievances d"
proof (induction fs arbitrary: d k)
  case Nil
  then show ?case by simp
next
  case (Cons f fs)
  then show ?case
    by (auto simp add: createFile_def Let_def split: if_splits)
qed

lemma createNotification_grievances:
  "createNotification d e k ins = Inr (n, d') \<Longrightarrow> grievances d' = grievances d"
  by (auto simp add: createNotification_def Let_def split: if_splits)

lemma createGrievance_row:
  assumes "createGrievance d e k ins = Inr (g, d')"
  shows "grievances d' = grievances d @ [g]"
    and "status g = i_status ins"
    and "category g = i_category ins"
    and "i_priority ins = JString (priority g)"
    and "i_slaDeadline ins = Date (getTime (slaDeadline g))"
    and "slaDeadline g \<noteq> None"
    and "createdAt g = Some (dbNow e k)"
    and "resolvedAt g = None"
  using assms
  by (auto simp add: createGrievance_def Let_def getTime_def
      split: jsval.splits date.splits if_splits)

lemma postGrievances_Json:
  assumes "postGrievances d e uid body ups = (Json g, d')"
  shows "\<exists>d1. createGrievance d e 0
            \<lparr> i_userId = (if b_isAnonymous body = ''true'' then None else Some uid),
              i_trackingId = generateTrackingId (nanoid e 0) (nanoid e 1),
              i_title = b_title body, i_description = b_description body,
              i_category = b_category body,
              i_priority = getAutoPriority (b_category body),
              i_isAnonymous = (b_isAnonymous body = ''true''),
              i_isConfidential = (b_isConfidential body = ''true''),
              i_slaDeadline = calculateSlaDeadline (routeNow e) (getAutoPriority (b_category body)),
              i_status = ''submitted'' \<rparr> = Inr (g, d1)
          \<and> grievances d' = grievances d1"
proof -
  let ?owner = "if b_isAnonymous body = ''true'' then None else Some uid"
  let ?ins = "\<lparr> i_userId = ?owner,
              i_trackingId = generateTrackingId (nanoid e 0) (nanoid e 1),
              i_title = b_title body, i_description = b_description body,
              i_category = b_category body,
              i_priority = getAutoPriority (b_category body),
              i_isAnonymous = (b_isAnonymous body = ''true''),
              i_isConfidential = (b_isConfidential body = ''true''),
              i_slaDeadline = calculateSlaDeadline (routeNow e) (getAutoPriority (b_category body)),
              i_status = ''submitted'' \<rparr>"
  show ?thesis
  proof (cases "createGrievance d e 0 ?ins")
    case (Inl err)
    with assms show ?thesis by (simp add: postGrievances_def Let_def)
  next
    case (Inr r)
    obtain g1 d1 where r: "r = (g1, d1)" by (cases r)
    obtain fr d2 where cf: "createFiles d1 e 1 (g_id g1) ?owner ups = (fr, d2)"
      by (cases "createFiles d1 e 1 (g_id g1) ?owner ups")
    have g2: "grievances d2 = grievances d1"
      by (rule createFiles_grievances [OF cf])
    from assms Inr r cf have "g = g1 \<and> grievances d' = grievances d2"
      unfolding postGrievances_def Let_def
      by (auto split: option.splits sum.splits if_splits
          dest: createNotification_grievances)
    with Inr r g2 show ?thesis by simp
  qed
qed

lemma createGrievance_rejects_category:
  "i_category ins \<notin> set grievanceCategoryEnum \<Longrightarrow> createGrievance d e k ins = Inl DbError"
  by (simp add: createGrievance_def split: jsval.splits date.splits)

lemma createGrievance_rejects_trackingId:
  "i_trackingId ins \<in> set (map trackingId (grievances d)) \<Longrightarrow>
     createGrievance d e k ins = Inl DbError"
  by (simp add: createGrievance_def split: jsval.splits date.splits)

lemma sample_submit:
  "postGrievances (sampleDb []) (sampleEnv 1000 ''a'') ''u1'' (sampleBody ''urgent'') []
     = (Json sampleSubmitted,
        (sampleDb [sampleSubmitted])
          \<lparr>notifications :=
             [\<lparr> n_id = ''ai'', n_userId = ''u1'', n_grievanceId = Some ''a'',
                n_title = ''Grievance Submitted'',
                n_message = ''Your grievance '' @ [CHR 0x22] @ ''Broken projector''
                               @ [CHR 0x22] @ '' has been submitted successfully.'',
                isRead = False, n_createdAt = Some 1003 \<rparr>]\<rparr>)"
  by (simp add: postGrievances_def sampleDb_def sampleEnv_def sampleBody_def sampleUsers_def
      sampleSubmitted_def getAutoPriority_def getProp_def priorityMap_def
      calculateSlaDeadline_def hoursTable_def toPropertyKey_def generateTrackingId_def
      toUpperCase_def toUpperCaseChar_def createGrievance_def createNotification_def
      grievanceCategoryEnum_def grievancePriorityEnum_def grievanceStatusEnum_def
      userExists_def grievanceExists_def truthy_def Let_def)

lemma postGrievances_accepts:
  assumes "b_category body \<in> set grievanceCategoryEnum"
    and "generateTrackingId (nanoid e 0) (nanoid e 1) \<notin> set (map trackingId (grievances d))"
    and "uuid e 0 \<notin> set (map g_id (grievances d))"
    and "uuid e 1 \<notin> set (map n_id (notifications d))"
    and "b_isAnonymous body = ''true'' \<or> userExists d uid"
  shows "\<exists>g d'. postGrievances d e uid body [] = (Json g, d')"
proof -
  from assms(1) obtain p where p: "getAutoPriority (b_category body) = JString p"
    and pe: "p \<in> set grievancePriorityEnum"
    using getAutoPriority_enumeration
    by (auto simp add: grievanceCategoryEnum_def grievancePriorityEnum_def)
  from pe obtain t where t: "calculateSlaDeadline (routeNow e) (JString p) = Date t"
    using calculateSlaDeadline_priorities [of "routeNow e"]
    by (auto simp add: grievancePriorityEnum_def)
  show ?thesis
    using assms p pe t
    by (auto simp add: postGrievances_def createGrievance_def createNotification_def
        grievanceStatusEnum_def userExists_def grievanceExists_def truthy_def Let_def
        intro: rev_image_eqI)
qed

text \<open>
  C1, as stated: the deadline of a submitted grievance is the deadline computed from its
  creation timestamp. The route computes the deadline from its own reading of the server
  clock, and the creation timestamp is the database's default at the insert. In the
  sample the route reads 1000 and the database stamps 1002: for category \<open>urgent\<close> the
  stored deadline is 1000 plus 24 hours, not 1002 plus 24 hours.
\<close>

theorem postGrievances_deadline_not_from_createdAt:
  "fst (postGrievances (sampleDb []) (sampleEnv 1000 ''a'') ''u1'' (sampleBody ''urgent'') [])
     = Json sampleSubmitted
   \<and> category sampleSubmitted \<in> set grievanceCategoryEnum
   \<and> calculateSlaDeadline (getTime (createdAt sampleSubmitted))
         (getAutoPriority (category sampleSubmitted))
       \<noteq> Date (getTime (slaDeadline sampleSubmitted))"
  by (simp add: sample_submit)
     (simp add: sampleSubmitted_def getTime_def getAutoPriority_def getProp_def priorityMap_def
      calculateSlaDeadline_def hoursTable_def toPropertyKey_def grievanceCategoryEnum_def)

text \<open>
  C1, amended: when the category is in the enumeration and the route answers with the
  created grievance, that grievance is persisted, its status is \<open>submitted\<close>, its
  priority is the one documented for the category, and its deadline is the route's clock
  reading plus the hour offset of that priority; the creation timestamp is the
  database's own clock reading at the insert. For \<open>urgent\<close> at route time T0 this is
  priority \<open>critical\<close> and deadline T0 plus 24 hours.
\<close>

theorem postGrievances_sla_deadline:
  assumes "b_category body \<in> set grievanceCategoryEnum"
    and "postGrievances d e uid body ups = (Json g, d')"
  shows "g \<in> set (grievances d') \<and> status g = ''submitted''
         \<and> category g = b_category body
         \<and> priority g = spec_resolvePriority (b_category body)
         \<and> slaDeadline g = Some (routeNow e + spec_offsetHours (priority g) * 60 * 60 * 1000)
         \<and> createdAt g = Some (dbNow e 0)"
proof -
  from postGrievances_Json [OF assms(2)] obtain d1 ins where
    ins: "ins = \<lparr> i_userId = (if b_isAnonymous body = ''true'' then None else Some uid),
              i_trackingId = generateTrackingId (nanoid e 0) (nanoid e 1),
              i_title = b_title body, i_description = b_description body,
              i_category = b_category body,
              i_priority = getAutoPriority (b_category body),
              i_isAnonymous = (b_isAnonymous body = ''true''),
              i_isConfidential = (b_isConfidential body = ''true''),
              i_slaDeadline = calculateSlaDeadline (routeNow e) (getAutoPriority (b_category body)),
              i_status = ''submitted'' \<rparr>"
    and cg: "createGrievance d e 0 ins = Inr (g, d1)"
    and gs: "grievances d' = grievances d1"
    by blast
  have mem: "g \<in> set (grievances d')"
    using createGrievance_row(1) [OF cg] gs by simp
  have st: "status g = ''submitted''"
    using createGrievance_row(2) [OF cg] ins by simp
  have cat: "category g = b_category body"
    using createGrievance_row(3) [OF cg] ins by simp
  have pr: "getAutoPriority (b_category body) = JString (priority g)"
    using createGrievance_row(4) [OF cg] ins by simp
  have dl: "calculateSlaDeadline (routeNow e) (JString (priority g))
              = Date (getTime (slaDeadline g))"
    using createGrievance_row(5) [OF cg] ins pr by simp
  have some: "slaDeadline g \<noteq> None"
    by (rule createGrievance_row(6) [OF cg])
  have cr: "createdAt g = Some (dbNow e 0)"
    by (rule createGrievance_row(7) [OF cg])
  have pr': "priority g = spec_resolvePriority (b_category body)"
    using assms(1) pr getAutoPriority_enumeration
    by (auto simp add: grievanceCategoryEnum_def spec_resolvePriority_def)
  have "priority g \<in> set grievancePriorityEnum"
    using assms(1) pr'
    by (auto simp add: grievanceCategoryEnum_def spec_resolvePriority_def
        grievancePriorityEnum_def)
  then have "calculateSlaDeadline (routeNow e) (JString (priority g))
               = Date (routeNow e + spec_offsetHours (priority g) * 60 * 60 * 1000)"
    using calculateSlaDeadline_priorities [of "routeNow e"]
    by (auto simp add: grievancePriorityEnum_def spec_offsetHours_def)
  with dl some have "slaDeadline g
      = Some (routeNow e + spec_offsetHours (priority g) * 60 * 60 * 1000)"
    by (auto simp add: getTime_def)
  with mem st cat pr' cr show ?thesis by simp
qed

theorem postGrievances_sla_deadline_witness:
  "b_category (sampleBody ''urgent'') \<in> set grievanceCategoryEnum
   \<and> postGrievances (sampleDb []) (sampleEnv 1000 ''a'') ''u1'' (sampleBody ''urgent'') []
       = (Json sampleSubmitted,
          (sampleDb [sampleSubmitted])
            \<lparr>notifications :=
               [\<lparr> n_id = ''ai'', n_userId = ''u1'', n_grievanceId = Some ''a'',
                  n_title = ''Grievance Submitted'',
                  n_message = ''Your grievance '' @ [CHR 0x22] @ ''Broken projector''
                                 @ [CHR 0x22] @ '' has been submitted successfully.'',
                  isRead = False, n_createdAt = Some 1003 \<rparr>]\<rparr>)
   \<and> status sampleSubmitted = ''submitted''
   \<and> priority sampleSubmitted = ''critical''
   \<and> slaDeadline sampleSubmitted = Some (1000 + 24 * 60 * 60 * 1000)"
proof -
  have c: "b_category (sampleBody ''urgent'') \<in> set grievanceCategoryEnum"
    by (simp add: sampleBody_def grievanceCategoryEnum_def)
  note r = sample_submit
  from postGrievances_sla_deadline [OF c r] c r show ?thesis
    by (simp add: sampleEnv_def sampleBody_def spec_resolvePriority_def spec_offsetHours_def)
qed

text \<open>
  C3, as stated: a category outside the enumeration makes the submission fail with a
  validation error. For the category \<open>hostel\<close> the route, on the database-backed
  storage, answers with status 500 and the message of its catch block, which is not a
  validation error.
\<close>

theorem postGrievances_no_validation_error:
  "postGrievances (sampleDb []) (sampleEnv 1000 ''a'') ''u1'' (sampleBody ''hostel'') []
     = (Status 500 ''Failed to create grievance'', sampleDb [])
   \<and> ''hostel'' \<notin> set grievanceCategoryEnum
   \<and> \<not> spec_isValidationError
         (fst (postGrievances (sampleDb []) (sampleEnv 1000 ''a'') ''u1'' (sampleBody ''hostel'') []))"
  by (simp add: postGrievances_def createGrievance_rejects_category sampleBody_def
      grievanceCategoryEnum_def spec_isValidationError_def Let_def)

text \<open>
  C3, amended: with the database-backed storage, every submission whose category is
  outside the enumeration fails without persisting anything, and the answer is status
  500 with the message \<open>Failed to create grievance\<close>, which is not a validation
  error: the route has no check of its own, and it is the category column of the
  database that refuses the row.
\<close>

theorem postGrievances_invalid_category:
  "b_category body \<notin> set grievanceCategoryEnum \<Longrightarrow>
     postGrievances d e uid body ups = (Status 500 ''Failed to create grievance'', d)
     \<and> \<not> spec_isValidationError (fst (postGrievances d e uid body ups))"
  by (simp add: postGrievances_def createGrievance_rejects_category spec_isValidationError_def
      Let_def)

theorem postGrievances_invalid_category_witness:
  "b_category (sampleBody ''hostel'') \<notin> set grievanceCategoryEnum
   \<and> postGrievances (sampleDb []) (sampleEnv 1000 ''a'') ''u1'' (sampleBody ''hostel'') []
       = (Status 500 ''Failed to create grievance'', sampleDb [])
   \<and> \<not> spec_isValidationError
         (fst (postGrievances (sampleDb []) (sampleEnv 1000 ''a'') ''u1''
                 (sampleBody ''hostel'') []))"
proof -
  have c: "b_category (sampleBody ''hostel'') \<notin> set grievanceCategoryEnum"
    by (simp add: sampleBody_def grievanceCategoryEnum_def)
  from postGrievances_invalid_category
         [OF c, where d = "sampleDb []" and e = "sampleEnv 1000 ''a''" and uid = "''u1''"
            and ups = "[]"] c
  show ?thesis by blast
qed

text \<open>
  C4, as stated: when the generated tracking id is already taken, the generator retries.
  In the sample the first two draws give the tracking id of the stored grievance and
  the next two draws would give a fresh one; the submission fails all the same.
\<close>

theorem postGrievances_collision_fails:
  "postGrievances (sampleDb [sampleSubmitted]) (sampleEnv 5000 ''b'') ''u1''
       (sampleBody ''academic'') []
     = (Status 500 ''Failed to create grievance'', sampleDb [sampleSubmitted])
   \<and> generateTrackingId (nanoid (sampleEnv 5000 ''b'') 0) (nanoid (sampleEnv 5000 ''b'') 1)
       \<in> set (map trackingId (grievances (sampleDb [sampleSubmitted])))
   \<and> generateTrackingId (nanoid (sampleEnv 5000 ''b'') 2) (nanoid (sampleEnv 5000 ''b'') 3)
       \<notin> set (map trackingId (grievances (sampleDb [sampleSubmitted])))"
proof -
  have t: "generateTrackingId (nanoid (sampleEnv 5000 ''b'') 0) (nanoid (sampleEnv 5000 ''b'') 1)
       \<in> set (map trackingId (grievances (sampleDb [sampleSubmitted])))"
    by (simp add: sampleEnv_def sampleDb_def sampleSubmitted_def generateTrackingId_def
        toUpperCase_def toUpperCaseChar_def)
  have u: "generateTrackingId (nanoid (sampleEnv 5000 ''b'') 2) (nanoid (sampleEnv 5000 ''b'') 3)
       \<notin> set (map trackingId (grievances (sampleDb [sampleSubmitted])))"
    by (simp add: sampleEnv_def sampleDb_def sampleSubmitted_def generateTrackingId_def
        toUpperCase_def toUpperCaseChar_def)
  have "postGrievances (sampleDb [sampleSubmitted]) (sampleEnv 5000 ''b'') ''u1''
       (sampleBody ''academic'') []
     = (Status 500 ''Failed to create grievance'', sampleDb [sampleSubmitted])"
    using t by (simp add: postGrievances_def createGrievance_rejects_trackingId Let_def)
  with t u show ?thesis by simp
qed

text \<open>
  C4, amended: the tracking id is generated once, from the first two draws. If it is
  already persisted, the unique constraint rejects the insert and the submission fails
  at this first collision with status 500, with nothing persisted and no further draw.
\<close>

theorem postGrievances_no_retry:
  "generateTrackingId (nanoid e 0) (nanoid e 1) \<in> set (map trackingId (grievances d)) \<Longrightarrow>
     postGrievances d e uid body ups = (Status 500 ''Failed to create grievance'', d)"
  by (simp add: postGrievances_def createGrievance_rejects_trackingId Let_def)

theorem postGrievances_no_retry_witness:
  "generateTrackingId (nanoid (sampleEnv 5000 ''b'') 0) (nanoid (sampleEnv 5000 ''b'') 1)
       \<in> set (map trackingId (grievances (sampleDb [sampleSubmitted])))
   \<and> postGrievances (sampleDb [sampleSubmitted]) (sampleEnv 5000 ''b'') ''u1''
       (sampleBody ''academic'') []
     = (Status 500 ''Failed to create grievance'', sampleDb [sampleSubmitted])"
proof -
  have t: "generateTrackingId (nanoid (sampleEnv 5000 ''b'') 0) (nanoid (sampleEnv 5000 ''b'') 1)
       \<in> set (map trackingId (grievances (sampleDb [sampleSubmitted])))"
    by (simp add: sampleEnv_def sampleDb_def sampleSubmitted_def generateTrackingId_def
        toUpperCase_def toUpperCaseChar_def)
  from postGrievances_no_retry [OF t] t show ?thesis by simp
qed

section \<open>Status changes\<close>

lemma find_map_by_id:
  assumes "\<And>g. g_id (f g) = g_id g"
  shows "find (\<lambda>g. g_id g = j) (map (\<lambda>g. if g_id g = i then f g else g) gs)
         = map_option (\<lambda>g. if g_id g = i then f g else g) (find (\<lambda>g. g_id g = j) gs)"
  using assms by (induction gs) auto

lemma find_filter_same:
  "find P gs = Some g \<Longrightarrow> filter P gs \<noteq> []"
  by (induction gs) (auto split: if_splits)

lemma updateGrievanceStatus_row:
  assumes "st \<in> set grievanceStatusEnum" and "getGrievance d i = Some g"
  shows "\<exists>g' rest d1. updateGrievanceStatus d e i st r = Inr (g' # rest, d1)
           \<and> getGrievance d1 i
               = Some (g\<lparr>status := st, updatedAt := Some (storageNow e),
                        resolvedAt := (case r of None \<Rightarrow> resolvedAt g | Some t \<Rightarrow> Some t)\<rparr>)
           \<and> users d1 = users d"
proof -
  let ?upd = "\<lambda>g. case r of
                    None \<Rightarrow> g\<lparr>status := st, updatedAt := Some (storageNow e)\<rparr>
                  | Some t \<Rightarrow> g\<lparr>status := st, updatedAt := Some (storageNow e),
                                 resolvedAt := Some t\<rparr>"
  let ?rows = "map (\<lambda>g. if g_id g = i then ?upd g else g) (grievances d)"
  have id: "\<And>g. g_id (?upd g) = g_id g" by (simp split: option.splits)
  have f: "find (\<lambda>g. g_id g = i) ?rows
            = map_option (\<lambda>g. if g_id g = i then ?upd g else g)
                (find (\<lambda>g. g_id g = i) (grievances d))"
    by (rule find_map_by_id [OF id])
  from assms(2) have gi: "g_id g = i"
    by (auto simp add: getGrievance_def find_Some_iff)
  from f assms(2) gi have f': "find (\<lambda>g. g_id g = i) ?rows = Some (?upd g)"
    by (simp add: getGrievance_def)
  then have ne: "filter (\<lambda>g. g_id g = i) ?rows \<noteq> []"
    by (rule find_filter_same)
  then obtain g' rest where fr: "filter (\<lambda>g. g_id g = i) ?rows = g' # rest"
    by (cases "filter (\<lambda>g. g_id g = i) ?rows") auto
  have u: "updateGrievanceStatus d e i st r = Inr (g' # rest, d\<lparr>grievances := ?rows\<rparr>)"
    using assms(1) fr by (simp add: updateGrievanceStatus_def Let_def)
  have "getGrievance (d\<lparr>grievances := ?rows\<rparr>) i
          = Some (g\<lparr>status := st, updatedAt := Some (storageNow e),
                   resolvedAt := (case r of None \<Rightarrow> resolvedAt g | Some t \<Rightarrow> Some t)\<rparr>)"
    using f' by (simp add: getGrievance_def split: option.splits)
  with u show ?thesis by auto
qed

lemma createNotification_frame:
  "createNotification d e k ins = Inr (n, d') \<Longrightarrow>
     grievances d' = grievances d \<and> users d' = users d"
  by (auto simp add: createNotification_def Let_def split: if_splits)

lemma sampleResolvedOnce_grievances:
  "grievances sampleResolvedOnce
     = [sampleSubmitted\<lparr>status := ''resolved'', updatedAt := Some 7001,
                         resolvedAt := Some 7000\<rparr>]"
  by (simp add: sampleResolvedOnce_def patchGrievanceStatus_def sampleDb_def sampleUsers_def
      sampleEnv_def sampleSubmitted_def getUser_def staffRoles_def updateGrievanceStatus_def
      grievanceStatusEnum_def createNotification_def userExists_def grievanceExists_def
      truthy_def Let_def)

lemma sampleResolvedOnce_users:
  "users sampleResolvedOnce = sampleUsers"
  by (simp add: sampleResolvedOnce_def patchGrievanceStatus_def sampleDb_def sampleUsers_def
      sampleEnv_def sampleSubmitted_def getUser_def staffRoles_def updateGrievanceStatus_def
      grievanceStatusEnum_def createNotification_def userExists_def grievanceExists_def
      truthy_def Let_def)

text \<open>
  C2, as stated: a second \<open>resolved\<close> does not move the resolution timestamp. In the
  sample a staff member resolves the grievance at 7000 and again at 9000: the timestamp
  is 7000 after the first call and 9000 after the second.
\<close>

theorem patchGrievanceStatus_moves_resolvedAt:
  "map resolvedAt (grievances sampleResolvedOnce) = [Some 7000]
   \<and> map resolvedAt (grievances sampleResolvedTwice) = [Some 9000]"
proof -
  have a: "map resolvedAt (grievances sampleResolvedOnce) = [Some 7000]"
    by (simp add: sampleResolvedOnce_grievances)
  have n: "notifications sampleResolvedOnce
     = [\<lparr> n_id = ''c'', n_userId = ''u1'', n_grievanceId = Some ''a'',
          n_title = ''Status Updated'',
          n_message = ''Your grievance status has been updated to resolved.'',
          isRead = False, n_createdAt = Some 7002 \<rparr>]"
    by (simp add: sampleResolvedOnce_def patchGrievanceStatus_def sampleDb_def sampleUsers_def
      sampleEnv_def sampleSubmitted_def getUser_def staffRoles_def updateGrievanceStatus_def
      grievanceStatusEnum_def createNotification_def userExists_def grievanceExists_def
      truthy_def Let_def)
  have b: "map resolvedAt (grievances sampleResolvedTwice) = [Some 9000]"
    by (simp add: sampleResolvedTwice_def patchGrievanceStatus_def getUser_def
        sampleResolvedOnce_users sampleResolvedOnce_grievances n sampleUsers_def staffRoles_def
        updateGrievanceStatus_def grievanceStatusEnum_def sampleSubmitted_def sampleEnv_def
        createNotification_def userExists_def grievanceExists_def truthy_def Let_def)
  from a b show ?thesis by simp
qed

text \<open>
  C2, amended: when a staff-level caller sets a status of the enumeration on an existing
  grievance, the grievance has that status afterwards; its resolution timestamp is the
  route's clock reading of this call when the status is \<open>resolved\<close> or \<open>closed\<close>
  (also when it was set before), and is unchanged for every other status, so it is never
  cleared.
\<close>

theorem patchGrievanceStatus_resolvedAt:
  assumes "getUser d uid = Some u" and "role u \<in> set staffRoles"
    and "getGrievance d i = Some g" and "st \<in> set grievanceStatusEnum"
  shows "\<exists>g'. getGrievance (snd (patchGrievanceStatus d e uid i st)) i = Some g'
           \<and> status g' = st
           \<and> resolvedAt g' = (if st = ''resolved'' \<or> st = ''closed''
                               then Some (routeNow e) else resolvedAt g)"
proof -
  let ?r = "if st = ''resolved'' \<or> st = ''closed'' then Some (routeNow e) else None"
  from updateGrievanceStatus_row [OF assms(4) assms(3), of e ?r]
  obtain g1 rest d1 where
    u: "updateGrievanceStatus d e i st ?r = Inr (g1 # rest, d1)"
    and gg: "getGrievance d1 i
               = Some (g\<lparr>status := st, updatedAt := Some (storageNow e),
                        resolvedAt := (case ?r of None \<Rightarrow> resolvedAt g | Some t \<Rightarrow> Some t)\<rparr>)"
    by blast
  have "grievances (snd (patchGrievanceStatus d e uid i st)) = grievances d1"
    using assms(1,2) u unfolding patchGrievanceStatus_def Let_def
    by (auto split: sum.splits dest: createNotification_frame)
  then have "getGrievance (snd (patchGrievanceStatus d e uid i st)) i = getGrievance d1 i"
    by (simp add: getGrievance_def)
  with gg show ?thesis by auto
qed

theorem patchGrievanceStatus_resolvedAt_witness:
  "getUser (sampleDb [sampleSubmitted]) ''s1'' = Some \<lparr>u_id = ''s1'', role = ''staff''\<rparr>
   \<and> role \<lparr>u_id = ''s1'', role = ''staff''\<rparr> \<in> set staffRoles
   \<and> getGrievance (sampleDb [sampleSubmitted]) ''a'' = Some sampleSubmitted
   \<and> ''in_progress'' \<in> set grievanceStatusEnum
   \<and> (\<exists>g'. getGrievance (snd (patchGrievanceStatus (sampleDb [sampleSubmitted])
                                   (sampleEnv 7000 ''c'') ''s1'' ''a'' ''in_progress'')) ''a''
               = Some g'
            \<and> status g' = ''in_progress'' \<and> resolvedAt g' = None)"
proof -
  have u: "getUser (sampleDb [sampleSubmitted]) ''s1'' = Some \<lparr>u_id = ''s1'', role = ''staff''\<rparr>"
    by (simp add: getUser_def sampleDb_def sampleUsers_def)
  have r: "role \<lparr>u_id = ''s1'', role = ''staff''\<rparr> \<in> set staffRoles"
    by (simp add: staffRoles_def)
  have g: "getGrievance (sampleDb [sampleSubmitted]) ''a'' = Some sampleSubmitted"
    by (simp add: getGrievance_def sampleDb_def sampleSubmitted_def)
  have s: "''in_progress'' \<in> set grievanceStatusEnum"
    by (simp add: grievanceStatusEnum_def)
  from patchGrievanceStatus_resolvedAt [OF u r g s, of "sampleEnv 7000 ''c''"] u r g s
  show ?thesis by (simp add: sampleSubmitted_def)
qed

section \<open>Priority changes\<close>

lemma updateGrievancePriority_row:
  assumes "p \<in> set grievancePriorityEnum" and "getGrievance d i = Some g"
  shows "\<exists>g' rest d1. updateGrievancePriority d e i p (Date t) = Inr (g' # rest, d1)
           \<and> getGrievance d1 i
               = Some (g\<lparr>priority := p, slaDeadline := Some t,
                        updatedAt := Some (storageNow e)\<rparr>)"
proof -
  let ?upd = "\<lambda>g. g\<lparr>priority := p, slaDeadline := Some t, updatedAt := Some (storageNow e)\<rparr>"
  let ?rows = "map (\<lambda>g. if g_id g = i then ?upd g else g) (grievances d)"
  have id: "\<And>g. g_id (?upd g) = g_id g" by simp
  have f: "find (\<lambda>g. g_id g = i) ?rows
            = map_option (\<lambda>g. if g_id g = i then ?upd g else g)
                (find (\<lambda>g. g_id g = i) (grievances d))"
    by (rule find_map_by_id [OF id])
  from assms(2) have gi: "g_id g = i"
    by (auto simp add: getGrievance_def find_Some_iff)
  from f assms(2) gi have f': "find (\<lambda>g. g_id g = i) ?rows = Some (?upd g)"
    by (simp add: getGrievance_def)
  then have ne: "filter (\<lambda>g. g_id g = i) ?rows \<noteq> []"
    by (rule find_filter_same)
  then obtain g' rest where fr: "filter (\<lambda>g. g_id g = i) ?rows = g' # rest"
    by (cases "filter (\<lambda>g. g_id g = i) ?rows") auto
  have u: "updateGrievancePriority d e i p (Date t) = Inr (g' # rest, d\<lparr>grievances := ?rows\<rparr>)"
    using assms(1) fr by (simp add: updateGrievancePriority_def Let_def)
  have "getGrievance (d\<lparr>grievances := ?rows\<rparr>) i = Some (?upd g)"
    using f' by (simp add: getGrievance_def)
  with u show ?thesis by auto
qed

text \<open>
  C5. When an administrator sets one of the four priorities on an existing grievance at
  route time T, the grievance has that priority afterwards and its deadline is T plus
  24, 48, 72 or 120 hours for critical, high, medium or low; the creation timestamp
  plays no part and is unchanged.
\<close>

theorem patchGrievancePriority_sla_deadline:
  assumes "getUser d uid = Some u" and "role u = ''administrator''"
    and "getGrievance d i = Some g" and "p \<in> set grievancePriorityEnum"
  shows "\<exists>g'. getGrievance (snd (patchGrievancePriority d e uid i p)) i = Some g'
           \<and> priority g' = p
           \<and> slaDeadline g' = Some (routeNow e + spec_offsetHours p * 60 * 60 * 1000)
           \<and> createdAt g' = createdAt g"
proof -
  let ?t = "routeNow e + spec_offsetHours p * 60 * 60 * 1000"
  have dl: "calculateSlaDeadline (routeNow e) (JString p) = Date ?t"
    using assms(4) calculateSlaDeadline_priorities [of "routeNow e"]
    by (auto simp add: grievancePriorityEnum_def spec_offsetHours_def)
  from updateGrievancePriority_row [OF assms(4) assms(3), of e ?t]
  obtain g1 rest d1 where
    u: "updateGrievancePriority d e i p (Date ?t) = Inr (g1 # rest, d1)"
    and gg: "getGrievance d1 i
               = Some (g\<lparr>priority := p, slaDeadline := Some ?t,
                        updatedAt := Some (storageNow e)\<rparr>)"
    by blast
  have "grievances (snd (patchGrievancePriority d e uid i p)) = grievances d1"
    using assms(1,2) u dl unfolding patchGrievancePriority_def Let_def
    by (auto split: sum.splits dest: createNotification_frame)
  then have "getGrievance (snd (patchGrievancePriority d e uid i p)) i = getGrievance d1 i"
    by (simp add: getGrievance_def)
  with gg show ?thesis by auto
qed

theorem patchGrievancePriority_sla_deadline_witness:
  "getUser (sampleDb [sampleSubmitted]) ''a1'' = Some \<lparr>u_id = ''a1'', role = ''administrator''\<rparr>
   \<and> role \<lparr>u_id = ''a1'', role = ''administrator''\<rparr> = ''administrator''
   \<and> getGrievance (sampleDb [sampleSubmitted]) ''a'' = Some sampleSubmitted
   \<and> ''low'' \<in> set grievancePriorityEnum
   \<and> (\<exists>g'. getGrievance (snd (patchGrievancePriority (sampleDb [sampleSubmitted])
                                   (sampleEnv 500000000 ''e'') ''a1'' ''a'' ''low'')) ''a''
               = Some g'
            \<and> priority g' = ''low''
            \<and> slaDeadline g' = Some (500000000 + 120 * 60 * 60 * 1000)
            \<and> createdAt g' = Some 1002)"
proof -
  have u: "getUser (sampleDb [sampleSubmitted]) ''a1''
             = Some \<lparr>u_id = ''a1'', role = ''administrator''\<rparr>"
    by (simp add: getUser_def sampleDb_def sampleUsers_def)
  have r: "role \<lparr>u_id = ''a1'', role = ''administrator''\<rparr> = ''administrator''"
    by simp
  have g: "getGrievance (sampleDb [sampleSubmitted]) ''a'' = Some sampleSubmitted"
    by (simp add: getGrievance_def sampleDb_def sampleSubmitted_def)
  have s: "''low'' \<in> set grievancePriorityEnum"
    by (simp add: grievancePriorityEnum_def)
  from patchGrievancePriority_sla_deadline [OF u r g s, of "sampleEnv 500000000 ''e''"] u r g s
  show ?thesis by (simp add: sampleSubmitted_def sampleEnv_def spec_offsetHours_def)
qed

section \<open>Comments\<close>

text \<open>
  C10. Whoever calls the add-comment route and whatever the body holds, either exactly
  one comment is appended and it is not internal, or the request fails and nothing is
  stored: the route cannot produce an internal comment.
\<close>

theorem postGrievanceComments_not_internal:
  "(case postGrievanceComments d e uid i body of
      (Json c, d') \<Rightarrow> \<not> isInternal c \<and> comments d' = comments d @ [c]
    | (Status n m, d') \<Rightarrow> d' = d)"
  by (simp add: postGrievanceComments_def createComment_def Let_def)

section \<open>Dashboard statistics\<close>

lemma length_filter_spec_count: "length (filter P xs) = spec_count P xs"
  by (induction xs) simp_all

lemma spec_count_filter: "spec_count P (filter Q xs) = spec_count (\<lambda>x. Q x \<and> P x) xs"
  by (induction xs) simp_all

lemma spec_count_cong: "(\<And>x. P x = Q x) \<Longrightarrow> spec_count P xs = spec_count Q xs"
  by (induction xs) simp_all

lemma scopedGrievances_spec:
  "spec_count P (scopedGrievances d uid rl)
     = spec_count (\<lambda>g. spec_inScope uid rl g \<and> P g) (grievances d)"
proof (cases "truthy uid \<and> rl = Some ''student''")
  case True
  then obtain u where u: "uid = Some u" "u \<noteq> []"
    by (auto simp add: truthy_def split: option.splits)
  have "spec_count P (filter (\<lambda>g. userId g = uid) (grievances d))
          = spec_count (\<lambda>g. userId g = uid \<and> P g) (grievances d)"
    by (rule spec_count_filter)
  also have "\<dots> = spec_count (\<lambda>g. spec_inScope uid rl g \<and> P g) (grievances d)"
    using True u by (intro spec_count_cong) (simp add: spec_inScope_def)
  finally have "spec_count P (filter (\<lambda>g. userId g = uid) (grievances d))
          = spec_count (\<lambda>g. spec_inScope uid rl g \<and> P g) (grievances d)" .
  moreover from True have "scopedGrievances d uid rl = filter (\<lambda>g. userId g = uid) (grievances d)"
    by (simp add: scopedGrievances_def)
  ultimately show ?thesis by simp
next
  case False
  then have "\<And>g. spec_inScope uid rl g"
    by (auto simp add: spec_inScope_def truthy_def split: option.splits)
  then have "spec_count P (grievances d)
          = spec_count (\<lambda>g. spec_inScope uid rl g \<and> P g) (grievances d)"
    by (intro spec_count_cong) simp
  moreover from False have "scopedGrievances d uid rl = grievances d"
    by (auto simp add: scopedGrievances_def)
  ultimately show ?thesis by simp
qed

text \<open>
  C8. Whatever the database holds, the dashboard reports, among the grievances in scope
  (those of the given user for a student, all of them otherwise), their number, the
  number of pending ones (status neither resolved nor closed), the number of resolved
  ones (status resolved or closed) and the number of overdue ones (pending, with a
  deadline that is set and earlier than the call time); with no grievances all four
  are 0.
\<close>

theorem getDashboardStats_counts:
  "getDashboardStats d now uid rl =
     \<lparr> total = spec_count (spec_inScope uid rl) (grievances d),
       pending = spec_count (\<lambda>g. spec_inScope uid rl g \<and> spec_pending g) (grievances d),
       resolved = spec_count (\<lambda>g. spec_inScope uid rl g \<and> spec_resolved g) (grievances d),
       overdue = spec_count (\<lambda>g. spec_inScope uid rl g \<and> spec_overdue now g) (grievances d) \<rparr>
   \<and> getDashboardStats (d\<lparr>grievances := []\<rparr>) now uid rl
       = \<lparr> total = 0, pending = 0, resolved = 0, overdue = 0 \<rparr>"
proof -
  have p: "(\<lambda>g. status g \<notin> set [''resolved'', ''closed'']) = spec_pending"
    by (rule ext) (simp add: spec_pending_def)
  have r: "(\<lambda>g. status g = ''resolved'' \<or> status g = ''closed'') = spec_resolved"
    by (rule ext) (simp add: spec_resolved_def)
  have ov: "(\<lambda>g. (case slaDeadline g of None \<Rightarrow> False | Some t \<Rightarrow> t < now)
                 \<and> status g \<notin> set [''resolved'', ''closed'']) = spec_overdue now"
    by (rule ext) (auto simp add: spec_overdue_def spec_pending_def)
  have t: "length (scopedGrievances d uid rl) = spec_count (spec_inScope uid rl) (grievances d)"
    using scopedGrievances_spec [of "\<lambda>g. True" d uid rl]
    by (simp add: length_filter_spec_count [of "\<lambda>g. True", simplified])
  have "getDashboardStats d now uid rl =
     \<lparr> total = spec_count (spec_inScope uid rl) (grievances d),
       pending = spec_count (\<lambda>g. spec_inScope uid rl g \<and> spec_pending g) (grievances d),
       resolved = spec_count (\<lambda>g. spec_inScope uid rl g \<and> spec_resolved g) (grievances d),
       overdue = spec_count (\<lambda>g. spec_inScope uid rl g \<and> spec_overdue now g) (grievances d) \<rparr>"
    unfolding getDashboardStats_def Let_def p r ov
    by (simp add: length_filter_spec_count scopedGrievances_spec t)
  moreover have "getDashboardStats (d\<lparr>grievances := []\<rparr>) now uid rl
       = \<lparr> total = 0, pending = 0, resolved = 0, overdue = 0 \<rparr>"
    by (simp add: getDashboardStats_def scopedGrievances_def)
  ultimately show ?thesis by simp
qed

lemma getDashboardStats_scenario:
  "getDashboardStats
     (sampleDb [sampleGrievance ''g1'' ''in_progress'' 0 None,
                sampleGrievance ''g2'' ''resolved'' 0 (Some 1000),
                sampleGrievance ''g3'' ''submitted'' 300000000 None])
     300000000 (Some ''a1'') (Some ''administrator'')
   = \<lparr> total = 3, pending = 2, resolved = 1, overdue = 1 \<rparr>"
  by (simp add: getDashboardStats_def scopedGrievances_def sampleDb_def sampleGrievance_def
      truthy_def)

lemma getDashboardStats_partition:
  "total (getDashboardStats d now uid rl)
     = pending (getDashboardStats d now uid rl) + resolved (getDashboardStats d now uid rl)
   \<and> overdue (getDashboardStats d now uid rl) \<le> pending (getDashboardStats d now uid rl)"
proof -
  have a: "length (filter (\<lambda>g. status g \<notin> set [''resolved'', ''closed'']) xs)
        + length (filter (\<lambda>g. status g = ''resolved'' \<or> status g = ''closed'') xs) = length xs"
    for xs :: "grievance list"
    by (induction xs) auto
  have b: "length (filter (\<lambda>g. P g \<and> Q g) xs) \<le> length (filter Q xs)"
    for P Q and xs :: "grievance list"
    by (induction xs) auto
  show ?thesis
    unfolding getDashboardStats_def Let_def
    using a [of "scopedGrievances d uid rl"] by (simp add: b)
qed

section \<open>Rounding to a double\<close>

text \<open>
  The exponent found by \<open>floorLog2\<close> brackets its argument, so \<open>roundDouble\<close> returns
  a number within half a unit in the last of 53 places; the known doubles of one tenth
  and of the sum of one tenth and two tenths come out, and a tie goes to the even
  neighbour.
\<close>

lemma pow2_pos: "0 < pow2 k"
  by (simp add: pow2_def)

lemma pow2_Suc: "pow2 (k + 1) = 2 * pow2 k"
proof (cases "0 \<le> k")
  case True
  then show ?thesis by (simp add: pow2_def nat_add_distrib)
next
  case False
  then have k: "k < 0" by simp
  show ?thesis
  proof (cases "k = -1")
    case True
    then show ?thesis by (simp add: pow2_def)
  next
    case False
    with k have "k + 1 < 0" by simp
    moreover from k have "nat (- k) = Suc (nat (- (k + 1)))" by simp
    ultimately show ?thesis using k by (simp add: pow2_def)
  qed
qed

lemma floorLog2_bounds:
  assumes "0 < x"
  shows "pow2 (floorLog2 x) \<le> x \<and> x < pow2 (floorLog2 x + 1)"
proof (cases "1 \<le> x")
  case True
  define n where "n = \<lfloor>x\<rfloor>"
  from True have n: "0 < n" by (simp add: n_def)
  have fl: "floorLog2 x = bitlen n - 1" using True by (simp add: floorLog2_def n_def)
  from n have b1: "1 \<le> bitlen n" by (simp add: bitlen_alt_def)
  from bitlen_bounds [OF n] have lo: "2 ^ nat (bitlen n - 1) \<le> n" and hi: "n < 2 ^ nat (bitlen n)"
    by simp_all
  have "pow2 (bitlen n - 1) = of_int (2 ^ nat (bitlen n - 1))"
    using b1 by (simp add: pow2_def)
  also have "\<dots> \<le> of_int n" using lo by (simp only: of_int_le_iff)
  also have "\<dots> \<le> x" by (simp add: n_def)
  finally have A: "pow2 (floorLog2 x) \<le> x" by (simp add: fl)
  from hi have "n + 1 \<le> 2 ^ nat (bitlen n)" by simp
  then have "(of_int (n + 1) :: rat) \<le> of_int (2 ^ nat (bitlen n))" by (simp only: of_int_le_iff)
  moreover have "x < of_int (n + 1)" unfolding n_def of_int_add by simp linarith
  ultimately have "x < of_int (2 ^ nat (bitlen n))" by simp
  moreover have "pow2 (bitlen n - 1 + 1) = of_int (2 ^ nat (bitlen n))"
    using b1 by (simp add: pow2_def)
  ultimately have B: "x < pow2 (floorLog2 x + 1)" by (simp add: fl)
  from A B show ?thesis by simp
next
  case False
  with assms have x1: "x < 1" by simp
  define y where "y = 1 / x"
  define m where "m = \<lceil>y\<rceil> - 1"
  from assms x1 have y1: "1 < y" by (simp add: y_def)
  then have m: "0 < m" by (simp add: m_def)
  have fl: "floorLog2 x = - bitlen m" using False by (simp add: floorLog2_def m_def y_def)
  from m have b1: "1 \<le> bitlen m" by (simp add: bitlen_alt_def)
  from bitlen_bounds [OF m] have lo: "2 ^ nat (bitlen m - 1) \<le> m" and hi: "m < 2 ^ nat (bitlen m)"
    by simp_all
  from hi have "m + 1 \<le> 2 ^ nat (bitlen m)" by simp
  then have "(of_int (m + 1) :: rat) \<le> of_int (2 ^ nat (bitlen m))" by (simp only: of_int_le_iff)
  moreover have "y \<le> of_int (m + 1)" unfolding m_def by simp
  ultimately have yle: "y \<le> 2 ^ nat (bitlen m)" by simp
  have "pow2 (- bitlen m) = 1 / 2 ^ nat (bitlen m)"
    using b1 by (simp add: pow2_def)
  also have "\<dots> \<le> 1 / y" using yle y1 by (simp add: frac_le)
  also have "\<dots> = x" by (simp add: y_def)
  finally have A: "pow2 (floorLog2 x) \<le> x" by (simp add: fl)
  have "(of_int (2 ^ nat (bitlen m - 1)) :: rat) \<le> of_int m" using lo by (simp only: of_int_le_iff)
  then have "(2::rat) ^ nat (bitlen m - 1) \<le> of_int m" by simp
  moreover have "of_int m < y" by (simp add: m_def) linarith
  ultimately have ylt: "2 ^ nat (bitlen m - 1) < y" by (rule order_le_less_trans)
  have B: "x < pow2 (floorLog2 x + 1)"
  proof (cases "bitlen m = 1")
    case True
    then show ?thesis using x1 by (simp add: fl pow2_def)
  next
    case False
    with b1 have b2: "2 \<le> bitlen m" by simp
    then have "pow2 (- bitlen m + 1) = 1 / 2 ^ nat (bitlen m - 1)"
      by (simp add: pow2_def)
    moreover have "x < 1 / 2 ^ nat (bitlen m - 1)"
    proof -
      have "1 / y < 1 / 2 ^ nat (bitlen m - 1)"
        using ylt by (simp add: frac_less2)
      then show ?thesis by (simp add: y_def)
    qed
    ultimately show ?thesis by (simp add: fl)
  qed
  from A B show ?thesis by simp
qed

lemma roundHalfEven_error: "\<bar>of_int (roundHalfEven q) - q\<bar> \<le> 1 / 2"
proof -
  have "of_int \<lfloor>q\<rfloor> \<le> q" "q < of_int \<lfloor>q\<rfloor> + 1" by linarith+
  then show ?thesis
    by (auto simp add: roundHalfEven_def Let_def)
qed

lemma pow2_add_nat: "pow2 (k + int n) = 2 ^ n * pow2 k"
proof (induction n)
  case 0
  then show ?case by simp
next
  case (Suc n)
  have "k + int (Suc n) = (k + int n) + 1" by simp
  then have "pow2 (k + int (Suc n)) = pow2 ((k + int n) + 1)" by (rule arg_cong)
  also have "\<dots> = 2 * pow2 (k + int n)" by (rule pow2_Suc)
  finally show ?case using Suc by simp
qed

lemma roundDouble_error: "\<bar>roundDouble x - x\<bar> \<le> \<bar>x\<bar> / 2 ^ 53"
proof (cases "x = 0")
  case True
  then show ?thesis by (simp add: roundDouble_def)
next
  case False
  define a where "a = \<bar>x\<bar>"
  define e where "e = floorLog2 a - 52"
  define q where "q = a / pow2 e"
  define m where "m = roundHalfEven q"
  from False have a: "0 < a" by (simp add: a_def)
  have pe: "0 < pow2 e" by (rule pow2_pos)
  have rd: "roundDouble x = sgn x * of_int m * pow2 e"
    using False by (simp add: roundDouble_def Let_def a_def e_def q_def m_def)
  have x: "x = sgn x * a" by (simp add: a_def sgn_mult_abs)
  have aq: "a = q * pow2 e" using pe by (simp add: q_def)
  have "roundDouble x - x = sgn x * ((of_int m - q) * pow2 e)"
    by (subst (2) x) (simp add: rd aq algebra_simps)
  then have "\<bar>roundDouble x - x\<bar> = \<bar>of_int m - q\<bar> * pow2 e"
    using False pe by (simp add: abs_mult abs_sgn_eq)
  also have "\<dots> \<le> 1 / 2 * pow2 e"
    using roundHalfEven_error [of q] pe unfolding m_def
    by (intro mult_right_mono) simp_all
  also have "\<dots> \<le> a / 2 ^ 53"
  proof -
    have "pow2 (e + int 52) = 2 ^ 52 * pow2 e" by (rule pow2_add_nat)
    moreover have "pow2 (e + int 52) \<le> a"
      using floorLog2_bounds [OF a] by (simp add: e_def)
    ultimately have "2 ^ 52 * pow2 e \<le> a" by simp
    then show ?thesis by simp
  qed
  finally show ?thesis by (simp add: a_def)
qed

lemma roundDouble_abs_le: "\<bar>roundDouble x\<bar> \<le> (1 + 1 / 2 ^ 53) * \<bar>x\<bar>"
proof -
  have "\<bar>roundDouble x\<bar> \<le> \<bar>x\<bar> + \<bar>roundDouble x - x\<bar>" by simp
  also have "\<dots> \<le> \<bar>x\<bar> + \<bar>x\<bar> / 2 ^ 53" using roundDouble_error [of x] by simp
  finally show ?thesis by (simp add: algebra_simps)
qed

lemma roundDouble_close:
  "\<bar>roundDouble x - x\<bar> \<le> spec_unitRoundoff * \<bar>x\<bar>"
  using roundDouble_error [of x] by (simp add: spec_unitRoundoff_def)

lemma roundDouble_bound:
  "\<bar>roundDouble x\<bar> \<le> (1 + spec_unitRoundoff) * \<bar>x\<bar>"
  using roundDouble_abs_le [of x] by (simp add: spec_unitRoundoff_def)

lemma unitRoundoff_nonneg: "0 \<le> spec_unitRoundoff"
  by (simp add: spec_unitRoundoff_def)

lemma spec_doubleSum_error:
  "\<bar>spec_doubleSum a xs - (a + sum_list xs)\<bar>
     \<le> ((1 + spec_unitRoundoff) ^ length xs - 1) * (\<bar>a\<bar> + sum_list (map abs xs))"
proof (induction xs arbitrary: a)
  case Nil
  then show ?case by simp
next
  case (Cons x xs)
  define u where "u = spec_unitRoundoff"
  define c where "c = 1 + u"
  define k where "k = length xs"
  define A where "A = sum_list (map abs xs)"
  define B where "B = \<bar>a\<bar> + \<bar>x\<bar>"
  define a' where "a' = roundDouble (a + x)"
  have u0: "0 \<le> u" by (simp add: u_def unitRoundoff_nonneg)
  have c1: "1 \<le> c" using u0 by (simp add: c_def)
  have ck: "1 \<le> c ^ k" using c1 by (rule one_le_power)
  have A0: "0 \<le> A" by (auto intro!: sum_list_nonneg simp add: A_def)
  have B0: "0 \<le> B" by (simp add: B_def)
  have e1: "\<bar>a' - (a + x)\<bar> \<le> u * B"
  proof -
    have "\<bar>a' - (a + x)\<bar> \<le> u * \<bar>a + x\<bar>"
      unfolding a'_def u_def by (rule roundDouble_close)
    also have "\<dots> \<le> u * B" unfolding B_def using u0 by (intro mult_left_mono) simp_all
    finally show ?thesis .
  qed
  have e2: "\<bar>a'\<bar> \<le> c * B"
  proof -
    have "\<bar>a'\<bar> \<le> c * \<bar>a + x\<bar>"
      unfolding a'_def c_def u_def by (rule roundDouble_bound)
    also have "\<dots> \<le> c * B" unfolding B_def using c1 by (intro mult_left_mono) simp_all
    finally show ?thesis .
  qed
  have ih: "\<bar>spec_doubleSum a' xs - (a' + sum_list xs)\<bar> \<le> (c ^ k - 1) * (\<bar>a'\<bar> + A)"
    using Cons.IH [of a'] by (simp add: c_def u_def k_def A_def)
  have "\<bar>spec_doubleSum a (x # xs) - (a + sum_list (x # xs))\<bar>
          = \<bar>(spec_doubleSum a' xs - (a' + sum_list xs)) + (a' - (a + x))\<bar>"
    by (simp add: a'_def)
  also have "\<dots> \<le> \<bar>spec_doubleSum a' xs - (a' + sum_list xs)\<bar> + \<bar>a' - (a + x)\<bar>"
    by (rule abs_triangle_ineq)
  also have "\<dots> \<le> (c ^ k - 1) * (\<bar>a'\<bar> + A) + u * B"
    using ih e1 by simp
  also have "\<dots> \<le> (c ^ k - 1) * (c * B + A) + u * B"
  proof -
    have "(c ^ k - 1) * (\<bar>a'\<bar> + A) \<le> (c ^ k - 1) * (c * B + A)"
      using ck e2 by (intro mult_left_mono) simp_all
    then show ?thesis by simp
  qed
  also have "\<dots> = (c ^ Suc k - 1) * B + (c ^ k - 1) * A"
    by (simp add: c_def algebra_simps)
  also have "\<dots> \<le> (c ^ Suc k - 1) * B + (c ^ Suc k - 1) * A"
  proof -
    have "c ^ k \<le> c ^ Suc k" using c1 by (intro power_increasing) simp_all
    then have "(c ^ k - 1) * A \<le> (c ^ Suc k - 1) * A"
      using A0 by (intro mult_right_mono) simp_all
    then show ?thesis by simp
  qed
  also have "\<dots> = (c ^ Suc k - 1) * (B + A)" by (simp add: algebra_simps)
  finally show ?case
    by (simp add: c_def u_def k_def A_def B_def add.assoc)
qed

lemma double_quotient_error:
  fixes x h :: rat
  assumes h: "0 < h"
  defines "c \<equiv> 1 + spec_unitRoundoff"
  shows "\<bar>roundDouble (roundDouble x / h) - x / h\<bar> \<le> (c ^ 2 - 1) * \<bar>x / h\<bar>"
    and "\<bar>roundDouble (roundDouble x / h)\<bar> \<le> c ^ 2 * \<bar>x / h\<bar>"
proof -
  define u where "u = spec_unitRoundoff"
  define y where "y = roundDouble x"
  define z where "z = roundDouble (y / h)"
  have u0: "0 \<le> u" by (simp add: u_def unitRoundoff_nonneg)
  have c: "c = 1 + u" by (simp add: c_def u_def)
  have c0: "0 \<le> c" using u0 by (simp add: c)
  have "\<bar>y - x\<bar> \<le> u * \<bar>x\<bar>" unfolding y_def u_def by (rule roundDouble_close)
  then have "\<bar>y - x\<bar> / h \<le> u * \<bar>x\<bar> / h" using h by (simp add: divide_right_mono)
  then have a1: "\<bar>y / h - x / h\<bar> \<le> u * \<bar>x / h\<bar>"
    using h by (simp add: diff_divide_distrib [symmetric] abs_divide)
  have "\<bar>y\<bar> \<le> c * \<bar>x\<bar>" unfolding y_def c_def by (rule roundDouble_bound)
  then have "\<bar>y\<bar> / h \<le> c * \<bar>x\<bar> / h" using h by (simp add: divide_right_mono)
  then have a2: "\<bar>y / h\<bar> \<le> c * \<bar>x / h\<bar>" using h by (simp add: abs_divide)
  have "\<bar>z - y / h\<bar> \<le> u * \<bar>y / h\<bar>" unfolding z_def u_def by (rule roundDouble_close)
  also have "\<dots> \<le> u * (c * \<bar>x / h\<bar>)" using a2 u0 by (rule mult_left_mono)
  finally have a3: "\<bar>z - y / h\<bar> \<le> u * (c * \<bar>x / h\<bar>)" .
  have "\<bar>z - x / h\<bar> = \<bar>(z - y / h) + (y / h - x / h)\<bar>" by simp
  also have "\<dots> \<le> \<bar>z - y / h\<bar> + \<bar>y / h - x / h\<bar>" by (rule abs_triangle_ineq)
  also have "\<dots> \<le> u * (c * \<bar>x / h\<bar>) + u * \<bar>x / h\<bar>" using a3 a1 by simp
  also have "\<dots> = (c ^ 2 - 1) * \<bar>x / h\<bar>"
  proof -
    have "u * (c * X) + u * X = (c ^ 2 - 1) * X" for X
      by (simp add: c power2_eq_square algebra_simps)
    then show ?thesis .
  qed
  finally show "\<bar>roundDouble (roundDouble x / h) - x / h\<bar> \<le> (c ^ 2 - 1) * \<bar>x / h\<bar>"
    by (simp add: z_def y_def)
  have "\<bar>z\<bar> \<le> c * \<bar>y / h\<bar>" unfolding z_def c_def by (rule roundDouble_bound)
  also have "\<dots> \<le> c * (c * \<bar>x / h\<bar>)" using a2 c0 by (rule mult_left_mono)
  also have "\<dots> = c ^ 2 * \<bar>x / h\<bar>" by (simp add: power2_eq_square)
  finally show "\<bar>roundDouble (roundDouble x / h)\<bar> \<le> c ^ 2 * \<bar>x / h\<bar>"
    by (simp add: z_def y_def)
qed

lemma sum_list_map_error:
  fixes f g :: "'a \<Rightarrow> rat"
  assumes "\<And>x. \<bar>g x - f x\<bar> \<le> r * \<bar>f x\<bar>"
  shows "\<bar>sum_list (map g xs) - sum_list (map f xs)\<bar> \<le> r * sum_list (map (\<lambda>x. \<bar>f x\<bar>) xs)"
proof (induction xs)
  case Nil
  then show ?case by simp
next
  case (Cons x xs)
  have "\<bar>sum_list (map g (x # xs)) - sum_list (map f (x # xs))\<bar>
          = \<bar>(g x - f x) + (sum_list (map g xs) - sum_list (map f xs))\<bar>" by simp
  also have "\<dots> \<le> \<bar>g x - f x\<bar> + \<bar>sum_list (map g xs) - sum_list (map f xs)\<bar>"
    by (rule abs_triangle_ineq)
  also have "\<dots> \<le> r * \<bar>f x\<bar> + r * sum_list (map (\<lambda>x. \<bar>f x\<bar>) xs)"
    using assms [of x] Cons.IH by simp
  finally show ?case by (simp add: algebra_simps)
qed

lemma sum_list_map_abs_bound:
  fixes f g :: "'a \<Rightarrow> rat"
  assumes "\<And>x. \<bar>g x\<bar> \<le> r * \<bar>f x\<bar>"
  shows "sum_list (map (\<lambda>x. \<bar>g x\<bar>) xs) \<le> r * sum_list (map (\<lambda>x. \<bar>f x\<bar>) xs)"
proof (induction xs)
  case Nil
  then show ?case by simp
next
  case (Cons x xs)
  then show ?case using assms [of x] by (simp add: algebra_simps)
qed

lemma abs_sum_list_le: "\<bar>sum_list (map f xs)\<bar> \<le> sum_list (map (\<lambda>x. \<bar>f x :: rat\<bar>) xs)"
proof (induction xs)
  case Nil
  then show ?case by simp
next
  case (Cons x xs)
  have "\<bar>sum_list (map f (x # xs))\<bar> \<le> \<bar>f x\<bar> + \<bar>sum_list (map f xs)\<bar>"
    by (simp add: abs_triangle_ineq)
  with Cons show ?case by simp
qed

lemma double_mean_error:
  fixes f g :: "'a \<Rightarrow> rat"
  defines "c \<equiv> 1 + spec_unitRoundoff"
  assumes e: "\<And>x. \<bar>g x - f x\<bar> \<le> (c ^ 2 - 1) * \<bar>f x\<bar>"
    and b: "\<And>x. \<bar>g x\<bar> \<le> c ^ 2 * \<bar>f x\<bar>"
    and ne: "xs \<noteq> []"
  shows "\<bar>roundDouble (spec_doubleSum 0 (map g xs) / of_nat (length xs))
           - sum_list (map f xs) / of_nat (length xs)\<bar>
         \<le> (c ^ (length xs + 3) - 1) * (sum_list (map (\<lambda>x. \<bar>f x\<bar>) xs) / of_nat (length xs))"
proof -
  define u where "u = spec_unitRoundoff"
  define n where "n = length xs"
  define N where "N = (of_nat n :: rat)"
  define T where "T = sum_list (map (\<lambda>x. \<bar>f x\<bar>) xs)"
  define s where "s = sum_list (map f xs)"
  define sg where "sg = sum_list (map g xs)"
  define Tg where "Tg = sum_list (map (\<lambda>x. \<bar>g x\<bar>) xs)"
  define S where "S = spec_doubleSum 0 (map g xs)"
  define M where "M = roundDouble (S / N)"
  have u0: "0 \<le> u" by (simp add: u_def unitRoundoff_nonneg)
  have c: "c = 1 + u" by (simp add: c_def u_def)
  have c1: "1 \<le> c" using u0 by (simp add: c)
  have c0: "0 \<le> c" using c1 by simp
  have cn: "1 \<le> c ^ n" using c1 by (rule one_le_power)
  have N0: "0 < N" using ne by (simp add: N_def n_def)
  have T0: "0 \<le> T" by (auto intro!: sum_list_nonneg simp add: T_def)
  have sT: "\<bar>s\<bar> \<le> T" unfolding s_def T_def by (rule abs_sum_list_le)
  have Tg: "Tg \<le> c ^ 2 * T" unfolding Tg_def T_def using b by (rule sum_list_map_abs_bound)
  have sg: "\<bar>sg - s\<bar> \<le> (c ^ 2 - 1) * T"
    unfolding sg_def s_def T_def using e by (rule sum_list_map_error)
  have "\<bar>S - (0 + sum_list (map g xs))\<bar>
          \<le> ((1 + spec_unitRoundoff) ^ length (map g xs) - 1)
              * (\<bar>0\<bar> + sum_list (map abs (map g xs)))"
    unfolding S_def by (rule spec_doubleSum_error)
  then have "\<bar>S - sg\<bar> \<le> (c ^ n - 1) * Tg"
    by (simp add: sg_def c_def n_def Tg_def comp_def)
  also have "\<dots> \<le> (c ^ n - 1) * (c ^ 2 * T)"
    using Tg cn by (intro mult_left_mono) simp_all
  finally have S1: "\<bar>S - sg\<bar> \<le> (c ^ n - 1) * (c ^ 2 * T)" .
  have "\<bar>S - s\<bar> = \<bar>(S - sg) + (sg - s)\<bar>" by simp
  also have "\<dots> \<le> \<bar>S - sg\<bar> + \<bar>sg - s\<bar>" by (rule abs_triangle_ineq)
  also have "\<dots> \<le> (c ^ n - 1) * (c ^ 2 * T) + (c ^ 2 - 1) * T" using S1 sg by simp
  also have "\<dots> = (c ^ (n + 2) - 1) * T"
  proof -
    have "(P - 1) * (Q * T) + (Q - 1) * T = (P * Q - 1) * T" for P Q :: rat
      by (simp add: algebra_simps)
    from this [of "c ^ n" "c ^ 2"] show ?thesis by (simp only: power_add)
  qed
  finally have S2: "\<bar>S - s\<bar> \<le> (c ^ (n + 2) - 1) * T" .
  have "\<bar>S\<bar> \<le> \<bar>s\<bar> + \<bar>S - s\<bar>" by simp
  also have "\<dots> \<le> T + (c ^ (n + 2) - 1) * T" using sT S2 by simp
  also have "\<dots> = c ^ (n + 2) * T" by (simp add: algebra_simps)
  finally have S3: "\<bar>S\<bar> \<le> c ^ (n + 2) * T" .
  have "\<bar>M - S / N\<bar> \<le> u * \<bar>S / N\<bar>" unfolding M_def u_def by (rule roundDouble_close)
  also have "\<dots> = u * (\<bar>S\<bar> / N)" using N0 by (simp add: abs_divide)
  also have "\<dots> \<le> u * (c ^ (n + 2) * T / N)"
    using S3 N0 u0 by (intro mult_left_mono divide_right_mono) simp_all
  finally have M1: "\<bar>M - S / N\<bar> \<le> u * (c ^ (n + 2) * T / N)" .
  have "\<bar>S / N - s / N\<bar> = \<bar>S - s\<bar> / N"
    using N0 by (simp add: diff_divide_distrib [symmetric] abs_divide)
  also have "\<dots> \<le> (c ^ (n + 2) - 1) * T / N"
    using S2 N0 by (intro divide_right_mono) simp_all
  finally have M2: "\<bar>S / N - s / N\<bar> \<le> (c ^ (n + 2) - 1) * T / N" .
  have "\<bar>M - s / N\<bar> = \<bar>(M - S / N) + (S / N - s / N)\<bar>" by simp
  also have "\<dots> \<le> \<bar>M - S / N\<bar> + \<bar>S / N - s / N\<bar>" by (rule abs_triangle_ineq)
  also have "\<dots> \<le> u * (c ^ (n + 2) * T / N) + (c ^ (n + 2) - 1) * T / N"
    using M1 M2 by simp
  also have "\<dots> = (c ^ (n + 3) - 1) * (T / N)"
  proof -
    have "n + 3 = Suc (n + 2)" by simp
    then have "c ^ (n + 3) = c * c ^ (n + 2)" by (simp only: power_Suc)
    then have "c ^ (n + 3) = c ^ (n + 2) + u * c ^ (n + 2)" by (simp add: c algebra_simps)
    moreover have "u * (P * T / N) + (P - 1) * T / N = (P + u * P - 1) * (T / N)" for P
      by (simp add: algebra_simps add_divide_distrib diff_divide_distrib)
    ultimately show ?thesis by simp
  qed
  finally show ?thesis
    by (simp add: M_def S_def N_def n_def s_def T_def)
qed

lemma roundDouble_known_values:
  "roundDouble (1 / 10) = 3602879701896397 / 36028797018963968"
  "roundDouble (roundDouble (1 / 10) + roundDouble (2 / 10))
     = 1351079888211149 / 4503599627370496"
  "roundDouble 9007199254740993 = 9007199254740992"
  "roundDouble 9007199254740995 = 9007199254740996"
  "roundDouble (- 9007199254740995) = - 9007199254740996"
  "roundDouble 36000000 = 36000000"
  by code_simp+

section \<open>Average resolution time\<close>

lemma foldl_spec_doubleSum:
  "foldl (\<lambda>sum g. roundDouble (sum + f g)) a xs = spec_doubleSum a (map f xs)"
  by (induction xs arbitrary: a) simp_all

lemma mathRound_spec_roundHalfUp: "mathRound x = spec_roundHalfUp x"
proof -
  have lo: "of_int \<lfloor>x\<rfloor> \<le> x" and hi: "x < of_int \<lfloor>x\<rfloor> + 1" by linarith+
  show ?thesis
  proof (cases "x - of_int \<lfloor>x\<rfloor> < 1 / 2")
    case True
    with lo have "\<lfloor>x + 1 / 2\<rfloor> = \<lfloor>x\<rfloor>"
      by (intro floor_unique) linarith+
    with True show ?thesis by (simp add: mathRound_def spec_roundHalfUp_def)
  next
    case False
    have "of_int (\<lfloor>x\<rfloor> + 1) \<le> x + 1 / 2"
      using False by simp
    moreover have "x + 1 / 2 < of_int (\<lfloor>x\<rfloor> + 1) + 1"
      using hi by simp
    ultimately have "\<lfloor>x + 1 / 2\<rfloor> = \<lfloor>x\<rfloor> + 1"
      by (rule floor_unique)
    with False show ?thesis by (simp add: mathRound_def spec_roundHalfUp_def)
  qed
qed

text \<open>
  The average stays close to the exact mean: the two differ by at most a half plus the
  rounding error of the double operations.
\<close>

lemma mathRound_error: "\<bar>of_int (mathRound x) - x\<bar> \<le> 1 / 2"
proof -
  have "of_int \<lfloor>x + 1 / 2\<rfloor> \<le> x + 1 / 2" "x + 1 / 2 < of_int \<lfloor>x + 1 / 2\<rfloor> + 1"
    by linarith+
  then show ?thesis unfolding mathRound_def by linarith
qed

lemma avgResolutionTime_accuracy:
  assumes "filter (\<lambda>g. resolvedAt g \<noteq> None) gs \<noteq> []"
  shows "\<bar>of_int (avgResolutionTime gs) - spec_meanResolutionHours gs\<bar>
           \<le> 1 / 2
              + ((1 + spec_unitRoundoff) ^ (length (filter (\<lambda>g. resolvedAt g \<noteq> None) gs) + 3) - 1)
                * (sum_list (map (\<lambda>g. \<bar>spec_resolutionHours g\<bar>)
                               (filter (\<lambda>g. resolvedAt g \<noteq> None) gs))
                   / of_nat (length (filter (\<lambda>g. resolvedAt g \<noteq> None) gs)))"
proof -
  define rs where "rs = filter (\<lambda>g. resolvedAt g \<noteq> None) gs"
  define M where "M = spec_doubleMeanHours gs"
  have ne: "rs \<noteq> []" using assms by (simp add: rs_def)
  have h: "(0::rat) < 3600000" by simp
  have dh: "spec_doubleHours g
              = roundDouble (roundDouble (of_int (getTime (resolvedAt g) - getTime (createdAt g)))
                             / 3600000)" for g
    by (simp add: spec_doubleHours_def)
  have e: "\<bar>spec_doubleHours g - spec_resolutionHours g\<bar>
             \<le> ((1 + spec_unitRoundoff) ^ 2 - 1) * \<bar>spec_resolutionHours g\<bar>" for g
    unfolding dh spec_resolutionHours_def by (rule double_quotient_error(1) [OF h])
  have b: "\<bar>spec_doubleHours g\<bar> \<le> (1 + spec_unitRoundoff) ^ 2 * \<bar>spec_resolutionHours g\<bar>" for g
    unfolding dh spec_resolutionHours_def by (rule double_quotient_error(2) [OF h])
  have Mdef: "M = roundDouble (spec_doubleSum 0 (map spec_doubleHours rs) / of_nat (length rs))"
    using ne by (simp add: M_def spec_doubleMeanHours_def rs_def Let_def)
  have mean: "spec_meanResolutionHours gs
                = sum_list (map spec_resolutionHours rs) / of_nat (length rs)"
    using ne by (simp add: spec_meanResolutionHours_def rs_def Let_def)
  have m: "\<bar>M - spec_meanResolutionHours gs\<bar>
             \<le> ((1 + spec_unitRoundoff) ^ (length rs + 3) - 1)
                * (sum_list (map (\<lambda>g. \<bar>spec_resolutionHours g\<bar>) rs) / of_nat (length rs))"
    unfolding Mdef mean by (rule double_mean_error [OF e b ne])
  have a: "avgResolutionTime gs = mathRound M"
  proof -
    have f: "foldl (\<lambda>sum g.
                    roundDouble
                      (sum + roundDouble
                               (roundDouble (of_int (getTime (resolvedAt g))
                                             - of_int (getTime (createdAt g)))
                                / (1000 * 60 * 60))))
                 0 xs
           = spec_doubleSum 0 (map spec_doubleHours xs)" for xs
      using foldl_spec_doubleSum [of spec_doubleHours 0 xs]
      by (simp add: spec_doubleHours_def)
    show ?thesis
      using ne unfolding avgResolutionTime_def Let_def f Mdef rs_def by simp
  qed
  have "\<bar>of_int (avgResolutionTime gs) - spec_meanResolutionHours gs\<bar>
          \<le> \<bar>of_int (mathRound M) - M\<bar> + \<bar>M - spec_meanResolutionHours gs\<bar>"
    unfolding a by simp
  also have "\<dots> \<le> 1 / 2 + ((1 + spec_unitRoundoff) ^ (length rs + 3) - 1)
                * (sum_list (map (\<lambda>g. \<bar>spec_resolutionHours g\<bar>) rs) / of_nat (length rs))"
    using mathRound_error [of M] m by simp
  finally show ?thesis by (simp add: rs_def)
qed

text \<open>
  C9, as stated: the average is the arithmetic mean of the resolution times in hours.
  With resolution times of 10 and 11 hours the mean is 21/2, and the code returns 11.
\<close>

theorem avgResolutionTime_not_mean:
  "avgResolutionTime [sampleGrievance ''g1'' ''resolved'' 0 (Some (10 * 3600000)),
                      sampleGrievance ''g2'' ''closed'' 0 (Some (11 * 3600000)),
                      sampleGrievance ''g3'' ''submitted'' 0 None] = 11
   \<and> spec_meanResolutionHours
        [sampleGrievance ''g1'' ''resolved'' 0 (Some (10 * 3600000)),
         sampleGrievance ''g2'' ''closed'' 0 (Some (11 * 3600000)),
         sampleGrievance ''g3'' ''submitted'' 0 None] = 21 / 2"
  by code_simp

lemma avgResolutionTime_scenario:
  "avgResolutionTime [sampleGrievance ''g1'' ''resolved'' 0 (Some (10 * 3600000)),
                      sampleGrievance ''g2'' ''closed'' 0 (Some (20 * 3600000)),
                      sampleGrievance ''g3'' ''submitted'' 0 None] = 15"
  by code_simp

lemma avgResolutionTime_double_rounding:
  "avgResolutionTime [sampleGrievance ''g1'' ''resolved'' 0 (Some 25440000),
                      sampleGrievance ''g2'' ''resolved'' 0 (Some 127020000),
                      sampleGrievance ''g3'' ''closed'' 0 (Some 14940000)] = 15
   \<and> spec_meanResolutionHours
        [sampleGrievance ''g1'' ''resolved'' 0 (Some 25440000),
         sampleGrievance ''g2'' ''resolved'' 0 (Some 127020000),
         sampleGrievance ''g3'' ''closed'' 0 (Some 14940000)] = 31 / 2"
  by code_simp

text \<open>
  C9, amended: the average that the database-backed storage reports is an integer. It
  is 0 when no grievance has a resolution timestamp. Otherwise it is the mean of the resolution times in hours over the
  grievances that have one, as double-precision arithmetic computes it (each time in
  milliseconds divided by 3600000, the quotients added from the left, the total divided
  by the count, every result rounded to the nearest double), rounded to the nearest
  integer with a half going upwards. Resolution times of 10 and 20 hours give 15; so do
  7h04m, 35h17m and 4h09m, whose exact mean is 15.5.
\<close>

theorem avgResolutionTime_rounded_double_mean:
  "avgResolutionTime gs = spec_roundHalfUp (spec_doubleMeanHours gs)
   \<and> (filter (\<lambda>g. resolvedAt g \<noteq> None) gs = [] \<longrightarrow> avgResolutionTime gs = 0)
   \<and> avgResolutionTime [sampleGrievance ''g1'' ''resolved'' 0 (Some (10 * 3600000)),
                        sampleGrievance ''g2'' ''closed'' 0 (Some (20 * 3600000)),
                        sampleGrievance ''g3'' ''submitted'' 0 None] = 15
   \<and> avgResolutionTime [sampleGrievance ''g1'' ''resolved'' 0 (Some 25440000),
                        sampleGrievance ''g2'' ''resolved'' 0 (Some 127020000),
                        sampleGrievance ''g3'' ''closed'' 0 (Some 14940000)] = 15"
proof -
  have z: "spec_roundHalfUp 0 = 0" by (simp add: spec_roundHalfUp_def)
  have f: "foldl (\<lambda>sum g.
                    roundDouble
                      (sum + roundDouble
                               (roundDouble (of_int (getTime (resolvedAt g))
                                             - of_int (getTime (createdAt g)))
                                / (1000 * 60 * 60))))
                 0 xs
           = spec_doubleSum 0 (map spec_doubleHours xs)" for xs
    using foldl_spec_doubleSum [of spec_doubleHours 0 xs]
    by (simp add: spec_doubleHours_def)
  have a: "avgResolutionTime gs = spec_roundHalfUp (spec_doubleMeanHours gs)"
    unfolding avgResolutionTime_def spec_doubleMeanHours_def Let_def f mathRound_spec_roundHalfUp
    by (simp add: z)
  have b: "filter (\<lambda>g. resolvedAt g \<noteq> None) gs = [] \<longrightarrow> avgResolutionTime gs = 0"
    by (simp add: avgResolutionTime_def)
  from a b avgResolutionTime_scenario avgResolutionTime_double_rounding show ?thesis
    by simp
qed

theorem avgResolutionTime_rounded_double_mean_witness:
  "filter (\<lambda>g. resolvedAt g \<noteq> None) [sampleGrievance ''g3'' ''submitted'' 0 None] = []
   \<and> avgResolutionTime [sampleGrievance ''g3'' ''submitted'' 0 None] = 0"
  using avgResolutionTime_rounded_double_mean [of "[sampleGrievance ''g3'' ''submitted'' 0 None]"]
  by (simp add: sampleGrievance_def)

end
